theory Spec2Isabelle
  imports Main
begin

section \<open>Strings as Python prints them\<close>

text \<open>
  \<^verbatim>\<open>str.join\<close>: the separator stands between consecutive elements only.
\<close>

fun join :: "string \<Rightarrow> string list \<Rightarrow> string" where
  "join sep [] = []"
| "join sep [x] = x"
| "join sep (x # y # ys) = x @ sep @ join sep (y # ys)"

definition hexdigit :: "nat \<Rightarrow> char" where
  "hexdigit n = (if n < 10 then char_of (48 + n) else char_of (87 + n))"

text \<open>
  \<^verbatim>\<open>repr\<close> of a Python \<^verbatim>\<open>str\<close>, on the ASCII range: the quote is the double quote
  exactly when the string holds a single quote and no double quote; the quote and the
  backslash are escaped, tab, newline and carriage return have their letter escapes, and
  the other control characters are written \<^verbatim>\<open>\xhh\<close>.
\<close>

definition repr_quote :: "string \<Rightarrow> char" where
  "repr_quote s = (if CHR 0x27 \<in> set s \<and> CHR 0x22 \<notin> set s then CHR 0x22 else CHR 0x27)"

definition repr_char :: "char \<Rightarrow> char \<Rightarrow> string" where
  "repr_char quote c =
     (if c = quote \<or> c = CHR 0x5C then [CHR 0x5C, c]
      else if c = CHR 0x09 then [CHR 0x5C, CHR ''t'']
      else if c = CHR 0x0A then [CHR 0x5C, CHR ''n'']
      else if c = CHR 0x0D then [CHR 0x5C, CHR ''r'']
      else if of_char c < (32::nat) \<or> of_char c = (127::nat)
        then [CHR 0x5C, CHR ''x'', hexdigit (of_char c div 16), hexdigit (of_char c mod 16)]
      else [c])"

definition repr :: "string \<Rightarrow> string" where
  "repr s = (let quote = repr_quote s in [quote] @ concat (map (repr_char quote) s) @ [quote])"

text \<open>
  The characters \<^verbatim>\<open>IDENTIFIER_PATTERN\<close> admits: \<^verbatim>\<open>[a-zA-Z_][a-zA-Z0-9_]*\<close>.
\<close>

definition identifier_start :: "char \<Rightarrow> bool" where
  "identifier_start c =
     (let n = (of_char c :: nat) in (97 \<le> n \<and> n \<le> 122) \<or> (65 \<le> n \<and> n \<le> 90) \<or> n = 95)"

definition identifier_char :: "char \<Rightarrow> bool" where
  "identifier_char c = (identifier_start c \<or> (48 \<le> (of_char c :: nat) \<and> (of_char c :: nat) \<le> 57))"

definition identifier_chars :: "string \<Rightarrow> bool" where
  "identifier_chars s = (s \<noteq> [] \<and> identifier_start (hd s) \<and> list_all identifier_char (tl s))"

section \<open>Tokens, source locations and errors\<close>

text \<open>
  The tokenizer is an external library. A token has a type, a value and a source range;
  a source location is its offset in the input.
\<close>

type_synonym location = nat

datatype kind = Identifier | Number | String | Resource | Symbol | Newline | Eof
  | Escape | Text | Spec | Statement

datatype token = Token (kind: kind) (val: string) (location: location) (end_location: location)

datatype error =
    InvalidSyntax string "string list" location location
  | UndefinedIdentifier token "string set" "string list" location location
  | UnexpectedToken token
  | UnexpectedEOF
  | IndexError
  | AttributeError
  | KeyError
  | OutOfFuel

section \<open>The message of UndefinedIdentifier\<close>

text \<open>
  \<^verbatim>\<open>UndefinedIdentifier.__str__\<close>. The fuzzy matcher \<^verbatim>\<open>difflib.get_close_matches\<close> is a
  library function and is taken as the parameter \<open>get_close_matches\<close>.
\<close>

definition suggestion :: "string list \<Rightarrow> string" where
  "suggestion matches =
     (if length matches = 1 then matches ! 0
      else (let head = butlast (butlast matches);
                before_last = last (butlast matches);
                lst = last matches
            in join '', '' (head @ [before_last @ '' or '' @ lst])))"

definition UndefinedIdentifier_str ::
  "(string \<Rightarrow> string set \<Rightarrow> string list) \<Rightarrow> token \<Rightarrow> string set \<Rightarrow> string" where
  "UndefinedIdentifier_str get_close_matches tok idents =
     (let msg = ''Identifier '' @ repr (val tok) @ '' is not defined.'';
          matches = get_close_matches (val tok) idents
      in if matches \<noteq> []
         then msg @ '' Did you mean '' @ suggestion (map repr matches) @ ''?''
         else msg)"

text \<open>
  The join as the specification words it: \<^verbatim>\<open>", "\<close> between all but the final pair and
  \<^verbatim>\<open>" or "\<close> between the final two.
\<close>

fun spec_suggestion_join :: "string list \<Rightarrow> string" where
  "spec_suggestion_join [] = []"
| "spec_suggestion_join [a] = a"
| "spec_suggestion_join [a, b] = a @ '' or '' @ b"
| "spec_suggestion_join (a # b # c # rest) = a @ '', '' @ spec_suggestion_join (b # c # rest)"


section \<open>Syntax trees\<close>

text \<open>
  Every node carries its source range, the pair of its \<^verbatim>\<open>location\<close> and \<^verbatim>\<open>end_location\<close>.
\<close>

type_synonym span = "location \<times> location"

datatype pyvalue = VBool bool | VNone | VStr string | VInt int | VNum string

datatype node =
    AstIdentifier span string
  | AstValue span pyvalue
  | AstFormatString span string "node list"
  | AstTuple span "node list"
  | AstList span "node list"
  | AstDict span "node list"
  | AstDictItem span node node
  | AstExpressionBinary span string node node
  | AstExpressionUnary span string node
  | AstCall span node "node list"
  | AstAttribute span node string
  | AstLookup span node "node list"
  | AstSlice span "node option" "node option" "node option"
  | AstKeyword span string node
  | AstUnpack span string node
  | AstTargetIdentifier span string bool
  | AstTargetAttribute span string node
  | AstTargetItem span node "node list"
  | AstTargetUnpack span "node list"
  | AstAssignment span string node node
  | AstFunctionSignature span string "node list"
  | AstFunctionSignatureArgument span string "node option"
  | AstImportedIdentifier span string
  | AstResourceLocation span bool "string option" string
  | AstCommand span string "node list"
  | AstRoot span "node list"

fun node_span :: "node \<Rightarrow> span" where
  "node_span (AstIdentifier l _) = l"
| "node_span (AstValue l _) = l"
| "node_span (AstFormatString l _ _) = l"
| "node_span (AstTuple l _) = l"
| "node_span (AstList l _) = l"
| "node_span (AstDict l _) = l"
| "node_span (AstDictItem l _ _) = l"
| "node_span (AstExpressionBinary l _ _ _) = l"
| "node_span (AstExpressionUnary l _ _) = l"
| "node_span (AstCall l _ _) = l"
| "node_span (AstAttribute l _ _) = l"
| "node_span (AstLookup l _ _) = l"
| "node_span (AstSlice l _ _ _) = l"
| "node_span (AstKeyword l _ _) = l"
| "node_span (AstUnpack l _ _) = l"
| "node_span (AstTargetIdentifier l _ _) = l"
| "node_span (AstTargetAttribute l _ _) = l"
| "node_span (AstTargetItem l _ _) = l"
| "node_span (AstTargetUnpack l _) = l"
| "node_span (AstAssignment l _ _ _) = l"
| "node_span (AstFunctionSignature l _ _) = l"
| "node_span (AstFunctionSignatureArgument l _ _) = l"
| "node_span (AstImportedIdentifier l _) = l"
| "node_span (AstResourceLocation l _ _ _) = l"
| "node_span (AstCommand l _ _) = l"
| "node_span (AstRoot l _) = l"

definition node_location :: "node \<Rightarrow> location" where
  "node_location n = fst (node_span n)"

definition node_end_location :: "node \<Rightarrow> location" where
  "node_end_location n = snd (node_span n)"

text \<open>The predicate \<^verbatim>\<open>isinstance(node, AstTarget)\<close>: the four target classes.\<close>

fun is_AstTarget :: "node \<Rightarrow> bool" where
  "is_AstTarget (AstTargetIdentifier _ _ _) = True"
| "is_AstTarget (AstTargetAttribute _ _ _) = True"
| "is_AstTarget (AstTargetItem _ _ _) = True"
| "is_AstTarget (AstTargetUnpack _ _) = True"
| "is_AstTarget _ = False"

section \<open>The token stream and its scope tables\<close>

text \<open>
  The stream is the sequence of tokens the tokenizer delivers, the number of tokens
  already consumed, whether newline tokens are ignored, and the entries of
  \<^verbatim>\<open>stream.data\<close> the parsers use: the five scope tables and the two lookup flags.
  The regular expressions of the lexical rules belong to the tokenizer; a rule is
  modelled as the predicate on tokens it accepts.
\<close>

record stream =
  tokens :: "token list"
  index :: nat
  ignore_newline :: bool
  identifiers :: "string set"
  pending_identifiers :: "string set"
  identifiers_storage :: "string \<rightharpoonup> string"
  pending_identifiers_storage :: "string \<rightharpoonup> string"
  branch_scope :: "string set"
  bolt_lookup :: bool
  bolt_format_string :: bool

type_synonym 'a result = "(error + 'a) \<times> stream"
type_synonym parser = "stream \<Rightarrow> node result"

text \<open>
  A raised exception leaves the stream as it is at that point: the tables mutated so far
  stay mutated. \<open>andthen\<close> runs the continuation on a returned value and passes an
  exception on.
\<close>

definition andthen :: "'a result \<Rightarrow> ('a \<Rightarrow> stream \<Rightarrow> 'b result) \<Rightarrow> 'b result" where
  "andthen r f = (case r of (Inl e, s) \<Rightarrow> (Inl e, s) | (Inr x, s) \<Rightarrow> f x s)"

text \<open>
  Modelled from the spec: the stream operations of section 3.1 (\<^verbatim>\<open>peek\<close>, \<^verbatim>\<open>get\<close>,
  \<^verbatim>\<open>expect\<close>, \<^verbatim>\<open>current\<close>, \<^verbatim>\<open>ignore\<close>), which the tokenizer library provides.
  The tokens still to come are those from \<open>index\<close> on, without the leading ignored ones.
\<close>

definition upcoming :: "stream \<Rightarrow> token list" where
  "upcoming s = dropWhile (\<lambda>t. ignore_newline s \<and> kind t = Newline) (drop (index s) (tokens s))"

definition peek :: "stream \<Rightarrow> token option" where
  "peek s = (case upcoming s of [] \<Rightarrow> None | t # _ \<Rightarrow> Some t)"

definition advance :: "stream \<Rightarrow> stream" where
  "advance s = s\<lparr>index := Suc (length (tokens s) - length (upcoming s))\<rparr>"

definition get :: "(token \<Rightarrow> bool) \<Rightarrow> stream \<Rightarrow> token option \<times> stream" where
  "get pattern s =
     (case peek s of
        None \<Rightarrow> (None, s)
      | Some t \<Rightarrow> if pattern t then (Some t, advance s) else (None, s))"

definition expect :: "(token \<Rightarrow> bool) \<Rightarrow> stream \<Rightarrow> token result" where
  "expect pattern s =
     (case peek s of
        None \<Rightarrow> (Inl UnexpectedEOF, s)
      | Some t \<Rightarrow> if pattern t then (Inr t, advance s) else (Inl (UnexpectedToken t), s))"

definition current_end :: "stream \<Rightarrow> location" where
  "current_end s = (if index s = 0 then 0 else end_location (tokens s ! (index s - 1)))"

definition with_ignore_newline :: "(stream \<Rightarrow> 'a result) \<Rightarrow> stream \<Rightarrow> 'a result" where
  "with_ignore_newline body s =
     (case body (s\<lparr>ignore_newline := True\<rparr>) of
        (r, s') \<Rightarrow> (r, s'\<lparr>ignore_newline := ignore_newline s\<rparr>))"

definition symbol :: "string \<Rightarrow> token \<Rightarrow> bool" where
  "symbol v t = (kind t = Symbol \<and> val t = v)"

definition is_identifier :: "token \<Rightarrow> bool" where
  "is_identifier t = (kind t = Identifier)"

text \<open>A stream at its start, over given tokens and scope tables.\<close>

definition new_stream :: "token list \<Rightarrow> string set \<Rightarrow> (string \<rightharpoonup> string) \<Rightarrow> stream" where
  "new_stream toks idents storage =
     \<lparr>tokens = toks, index = 0, ignore_newline = False, identifiers = idents,
      pending_identifiers = {}, identifiers_storage = storage,
      pending_identifiers_storage = Map.empty, branch_scope = {},
      bolt_lookup = False, bolt_format_string = False\<rparr>"

section \<open>check_final_expression\<close>

text \<open>
  \<^verbatim>\<open>consume_line_continuation\<close> belongs to the host parser library. It works under a
  checkpoint: it either commits a new position, after the newlines and the deeper
  indentation, or leaves the stream where it was. It is taken as the parameter
  \<open>line_continuation\<close>, which gives the committed position if there is one.
\<close>

definition consume_line_continuation :: "(stream \<Rightarrow> nat option) \<Rightarrow> stream \<Rightarrow> bool \<times> stream" where
  "consume_line_continuation line_continuation s =
     (case line_continuation s of None \<Rightarrow> (False, s) | Some i \<Rightarrow> (True, s\<lparr>index := i\<rparr>))"

definition token_span :: "token option \<Rightarrow> span" where
  "token_span t = (case t of None \<Rightarrow> (0, 0) | Some tok \<Rightarrow> (location tok, end_location tok))"

definition check_final_expression :: "(stream \<Rightarrow> nat option) \<Rightarrow> stream \<Rightarrow> unit result" where
  "check_final_expression line_continuation s =
     (let current_index = index s in
      case consume_line_continuation line_continuation s of
        (True, s1) \<Rightarrow>
          (case get (\<lambda>t. True) s1 of
             (tok, s2) \<Rightarrow>
               (Inl (InvalidSyntax ''Invalid indent following final expression.'' []
                      (fst (token_span tok)) (snd (token_span tok))), s2))
      | (False, s1) \<Rightarrow>
          (case get (\<lambda>t. True) s1 of
             (Some next_token, s2) \<Rightarrow>
               if \<not> (kind next_token = Newline \<or> kind next_token = Eof)
               then (Inl (InvalidSyntax ''Trailing input following final expression.'' []
                           (location next_token) (end_location next_token)), s2)
               else (Inr (), s2\<lparr>index := current_index\<rparr>)
           | (None, s2) \<Rightarrow> (Inr (), s2\<lparr>index := current_index\<rparr>)))"

section \<open>AssignmentTargetParser\<close>

lemma upcoming_length: "length (upcoming s) \<le> length (tokens s) - index s"
  unfolding upcoming_def
  by (metis length_drop length_dropWhile_le)

lemma advance_measure:
  "peek s = Some t \<Longrightarrow> length (tokens (advance s)) - index (advance s) < length (tokens s) - index s"
  using upcoming_length[of s]
  by (auto simp: peek_def advance_def split: list.splits)

lemma expect_measure:
  "expect p s = (Inr t, s') \<Longrightarrow> length (tokens s') - index s' < length (tokens s) - index s"
  by (auto simp: expect_def advance_measure split: option.splits if_splits)

lemma get_measure:
  "get p s = (r, s') \<Longrightarrow> length (tokens s') - index s' \<le> length (tokens s) - index s"
  using advance_measure[of s]
  by (auto simp: get_def split: option.splits if_splits dest: less_imp_le)

definition undefined_note :: "string \<Rightarrow> string" where
  "undefined_note x =
     ''Use '' @ [CHR 0x27] @ ''global '' @ x @ [CHR 0x27] @ '' or '' @ [CHR 0x27] @ ''nonlocal '' @ x @
     [CHR 0x27] @ '' to mutate the variable defined in outer scope.''"

text \<open>
  The body of the loop for one identifier token, up to the construction of the target.
\<close>

definition target_identifier :: "bool \<Rightarrow> token \<Rightarrow> stream \<Rightarrow> node result" where
  "target_identifier allow_undefined_identifiers tok s =
     (let is_defined = val tok \<in> identifiers s;
          with_storage = val tok \<in> dom (identifiers_storage s);
          rebind = is_defined \<and> with_storage;
          target = AstTargetIdentifier (location tok, end_location tok) (val tok) rebind
      in if allow_undefined_identifiers then
           (Inr target,
            s\<lparr>pending_identifiers := insert (val tok) (pending_identifiers s),
              pending_identifiers_storage :=
                (if \<not> with_storage then (pending_identifiers_storage s)(val tok \<mapsto> ''local'')
                 else pending_identifiers_storage s)\<rparr>)
         else if \<not> rebind then
           (Inl (UndefinedIdentifier tok (dom (identifiers_storage s))
                   (if is_defined \<and> \<not> with_storage then [undefined_note (val tok)] else [])
                   (location tok) (end_location tok)), s)
         else (Inr target, s))"

lemma target_identifier_position:
  "target_identifier a tok s = (r, s') \<Longrightarrow> tokens s' = tokens s \<and> index s' = index s"
  by (auto simp: target_identifier_def Let_def split: if_splits)

function assignment_targets :: "bool \<Rightarrow> bool \<Rightarrow> node list \<Rightarrow> stream \<Rightarrow> (node list) result" where
  "assignment_targets allow_undefined_identifiers allow_multiple nodes s =
     (case expect is_identifier s of
        (Inl e, s1) \<Rightarrow> (Inl e, s1)
      | (Inr tok, s1) \<Rightarrow>
          (case target_identifier allow_undefined_identifiers tok s1 of
             (Inl e, s2) \<Rightarrow> (Inl e, s2)
           | (Inr target, s2) \<Rightarrow>
               if \<not> allow_multiple then (Inr (nodes @ [target]), s2)
               else (case get (symbol '','') s2 of
                       (None, s3) \<Rightarrow> (Inr (nodes @ [target]), s3)
                     | (Some comma, s3) \<Rightarrow>
                         assignment_targets allow_undefined_identifiers allow_multiple
                           (nodes @ [target]) s3)))"
  by pat_completeness auto
termination
proof (relation "measure (\<lambda>(a, m, nodes, s). length (tokens s) - index s)")
  show "wf (measure (\<lambda>(a, m, nodes, s). length (tokens s) - index s))" by simp
next
  fix a m :: bool and nodes :: "node list" and s x s1 tok xa s2 target xb s3 and comma :: token
  fix r :: "error + token" and r2 :: "error + node" and r3 :: "token option"
  assume "(r, s1) = expect is_identifier s" "r = Inr tok"
     "(r2, s2) = target_identifier a tok s1" "r2 = Inr target" "\<not> \<not> m"
     "(r3, s3) = get (symbol '','') s2" "r3 = Some comma"
  then have 1: "length (tokens s1) - index s1 < length (tokens s) - index s"
    and 2: "tokens s2 = tokens s1 \<and> index s2 = index s1"
    and 3: "length (tokens s3) - index s3 \<le> length (tokens s2) - index s2"
    using expect_measure[of is_identifier s tok s1]
      target_identifier_position[of a tok s1 r2 s2] get_measure[of "symbol '',''" s2 r3 s3]
    by auto
  then show "((a, m, nodes @ [target], s3), a, m, nodes, s)
        \<in> measure (\<lambda>(a, m, nodes, s). length (tokens s) - index s)"
    by simp
qed

definition AssignmentTargetParser :: "bool \<Rightarrow> bool \<Rightarrow> parser" where
  "AssignmentTargetParser allow_undefined_identifiers allow_multiple s =
     andthen (assignment_targets allow_undefined_identifiers allow_multiple [] s)
       (\<lambda>nodes s'.
          if length nodes = 1 then (Inr (nodes ! 0), s')
          else (Inr (AstTargetUnpack (node_location (hd nodes), node_end_location (last nodes)) nodes), s'))"

section \<open>IfElseLoweringParser\<close>

text \<open>
  The commands of a root are \<^verbatim>\<open>AstCommand\<close> nodes; reading \<^verbatim>\<open>identifier\<close> or
  \<^verbatim>\<open>arguments\<close> of any other node raises \<^verbatim>\<open>AttributeError\<close>.
\<close>

definition branch_identifiers :: "string list" where
  "branch_identifiers = [''elif:condition:body'', ''else:body'']"

text \<open>
  The inner \<^verbatim>\<open>for\<close> loop, on the same iterator: it appends to the chain while the commands
  are \<^verbatim>\<open>elif\<close> or \<^verbatim>\<open>else\<close> branches. It gives the rest of the chain, the command that
  broke the loop (\<open>None\<close> when the iterator ran out) and what is left of the iterator.
\<close>

fun collect_chain :: "node list \<Rightarrow> error + (node list \<times> node option \<times> node list)" where
  "collect_chain [] = Inr ([], None, [])"
| "collect_chain (AstCommand l ident args # commands) =
     (if ident \<notin> set branch_identifiers then Inr ([], Some (AstCommand l ident args), commands)
      else (case collect_chain commands of
              Inl e \<Rightarrow> Inl e
            | Inr (chain, command, rest) \<Rightarrow> Inr (AstCommand l ident args # chain, command, rest)))"
| "collect_chain (other # commands) = Inl AttributeError"

text \<open>
  The loop over \<^verbatim>\<open>reversed(elif_chain)\<close>: each statement becomes an \<^verbatim>\<open>if\<close> command, is put
  in a root with what was built so far, and that root becomes the argument of an
  \<^verbatim>\<open>else:body\<close> command.
\<close>

fun nest_chain :: "node list \<Rightarrow> node list \<Rightarrow> error + node list" where
  "nest_chain [] lst = Inr lst"
| "nest_chain (AstCommand l ident args # stmts) lst =
     (let stmt = AstCommand l ''if:condition:body'' args;
          commands = stmt # lst;
          root = AstRoot (node_location (hd commands), node_end_location (last commands)) commands;
          command = AstCommand (node_location root, node_end_location root) ''else:body'' [root]
      in nest_chain stmts [command])"
| "nest_chain (other # stmts) lst = Inl AttributeError"

lemma collect_chain_length:
  "collect_chain commands = Inr (chain, command, rest) \<Longrightarrow> length rest \<le> length commands"
proof (induction commands arbitrary: chain command rest rule: collect_chain.induct)
  case 1
  then show ?case by simp
next
  case (2 l ident args commands)
  then show ?case
    by (auto split: if_splits sum.splits prod.splits)
qed simp_all

function (sequential) lower_commands :: "string \<Rightarrow> node list \<Rightarrow> node list \<Rightarrow> bool \<Rightarrow> error + (node list \<times> bool)" where
  "lower_commands previous [] result changed = Inr (result, changed)"
| "lower_commands previous (AstCommand l ident args # commands) result changed =
     (if ident \<in> set branch_identifiers \<and>
         previous \<notin> set [''if:condition:body'', ''elif:condition:body'']
      then (if args = [] then Inl IndexError
            else Inl (InvalidSyntax ''Conditional branch must be part of an if statement.'' []
                       (fst l) (node_location (last args))))
      else if ident = ''elif:condition:body'' then
        (case collect_chain commands of
           Inl e \<Rightarrow> Inl e
         | Inr (chain, command, rest) \<Rightarrow>
             (let elif_chain = AstCommand l ident args # chain;
                  popped = (case last elif_chain of
                              AstCommand _ i _ \<Rightarrow> i = ''else:body'' | _ \<Rightarrow> False);
                  lst = (if popped then [last elif_chain] else []);
                  elif_chain = (if popped then butlast elif_chain else elif_chain)
              in case nest_chain (rev elif_chain) lst of
                   Inl e \<Rightarrow> Inl e
                 | Inr [] \<Rightarrow> Inl IndexError
                 | Inr (first # _) \<Rightarrow>
                     (case command of
                        None \<Rightarrow> Inr (result @ [first], True)
                      | Some (AstCommand l' ident' args') \<Rightarrow>
                          lower_commands ident' rest
                            (result @ [first, AstCommand l' ident' args']) True
                      | Some other \<Rightarrow> Inl AttributeError)))
      else lower_commands ident commands (result @ [AstCommand l ident args]) changed)"
| "lower_commands previous (other # commands) result changed = Inl AttributeError"
  by pat_completeness auto
termination
proof (relation "measure (\<lambda>(previous, commands, result, changed). length commands)")
  show "wf (measure (\<lambda>(previous, commands, result, changed). length commands))" by simp
qed (auto dest: collect_chain_length)

text \<open>The rewrite of a root node, and the parser that applies it to what it wraps.\<close>

definition lower_if_else :: "node \<Rightarrow> error + node" where
  "lower_if_else node =
     (case node of
        AstRoot l commands \<Rightarrow>
          (case lower_commands [] commands [] False of
             Inl e \<Rightarrow> Inl e
           | Inr (result, changed) \<Rightarrow> Inr (if changed then AstRoot l result else node))
      | _ \<Rightarrow> Inl AttributeError)"

definition IfElseLoweringParser :: "parser \<Rightarrow> parser" where
  "IfElseLoweringParser parser s =
     andthen (parser s)
       (\<lambda>node s'. case lower_if_else node of Inl e \<Rightarrow> (Inl e, s') | Inr node' \<Rightarrow> (Inr node', s'))"

section \<open>Identifiers and function signatures\<close>

definition parse_identifier :: parser where
  "parse_identifier s =
     andthen (expect is_identifier s)
       (\<lambda>tok s1.
          if val tok \<notin> identifiers s1
          then (Inl (UndefinedIdentifier tok (identifiers s1) [] (location tok) (end_location tok)), s1)
          else (Inr (AstIdentifier (location tok, end_location tok) (val tok)), s1))"

text \<open>
  \<^verbatim>\<open>stream.provide(identifiers=...)\<close>: the body runs with the given set as the
  \<^verbatim>\<open>identifiers\<close> entry, and the entry of before is back once it ends, also on an
  exception.
\<close>

definition provide_identifiers :: "string set \<Rightarrow> (stream \<Rightarrow> 'a result) \<Rightarrow> stream \<Rightarrow> 'a result" where
  "provide_identifiers idents body s =
     (case body (s\<lparr>identifiers := idents\<rparr>) of
        (r, s') \<Rightarrow> (r, s'\<lparr>identifiers := identifiers s\<rparr>))"

fun argument_name :: "node \<Rightarrow> string" where
  "argument_name (AstFunctionSignatureArgument _ name _) = name"
| "argument_name _ = []"

text \<open>
  The loop over \<^verbatim>\<open>stream.peek_until(("brace", ")"))\<close>. The expression parser is the one
  registered as \<^verbatim>\<open>bolt:expression\<close>, a parameter here; the loop has fuel because nothing
  is known of what that parser does to the stream.
\<close>

fun signature_arguments ::
  "nat \<Rightarrow> parser \<Rightarrow> string set \<Rightarrow> node list \<Rightarrow> stream \<Rightarrow> (node list) result" where
  "signature_arguments 0 expression scoped_identifiers arguments s = (Inl OutOfFuel, s)"
| "signature_arguments (Suc n) expression scoped_identifiers arguments s =
     (case peek s of
        None \<Rightarrow> (Inl UnexpectedEOF, s)
      | Some t \<Rightarrow>
          if symbol '')'' t then (Inr arguments, advance s)
          else
            andthen (expect is_identifier s)
              (\<lambda>name s1.
                 andthen
                   (case get (symbol ''='') s1 of
                      (Some equal, s2) \<Rightarrow>
                        andthen
                          (provide_identifiers
                             (scoped_identifiers \<union> set (map argument_name arguments))
                             expression s2)
                          (\<lambda>default s3. (Inr (Some default), s3))
                    | (None, s2) \<Rightarrow> (Inr None, s2))
                   (\<lambda>default s3.
                      let argument =
                            AstFunctionSignatureArgument (location name, current_end s3)
                              (val name) default
                      in case get (symbol '','') s3 of
                           (None, s4) \<Rightarrow>
                             andthen (expect (symbol '')'') s4)
                               (\<lambda>close s5. (Inr (arguments @ [argument]), s5))
                         | (Some comma, s4) \<Rightarrow>
                             signature_arguments n expression scoped_identifiers
                               (arguments @ [argument]) s4)))"

definition parse_function_signature :: "nat \<Rightarrow> parser \<Rightarrow> parser" where
  "parse_function_signature fuel expression s =
     (let scoped_identifiers = identifiers s in
      andthen (expect is_identifier s)
        (\<lambda>identifier s1.
           andthen (expect (symbol ''('') s1)
             (\<lambda>opening s2.
                let scoped_identifiers = insert (val identifier) scoped_identifiers in
                andthen
                  (with_ignore_newline
                     (signature_arguments fuel expression scoped_identifiers []) s2)
                  (\<lambda>arguments s3.
                     (Inr (AstFunctionSignature (location identifier, current_end s3)
                             (val identifier) arguments),
                      s3\<lparr>identifiers := insert (val identifier) (identifiers s3),
                         pending_identifiers :=
                           pending_identifiers s3 \<union> set (map argument_name arguments)\<rparr>)))))"

text \<open>
  The scope rule as the specification words it: the default of an argument is parsed
  with a scope that starts as the outer identifiers and the function name and grows by
  the name of each argument once that argument is parsed.
\<close>

fun spec_signature_arguments ::
  "nat \<Rightarrow> parser \<Rightarrow> string set \<Rightarrow> node list \<Rightarrow> stream \<Rightarrow> (node list) result" where
  "spec_signature_arguments 0 expression scope arguments s = (Inl OutOfFuel, s)"
| "spec_signature_arguments (Suc n) expression scope arguments s =
     (case peek s of
        None \<Rightarrow> (Inl UnexpectedEOF, s)
      | Some t \<Rightarrow>
          if symbol '')'' t then (Inr arguments, advance s)
          else
            andthen (expect is_identifier s)
              (\<lambda>name s1.
                 andthen
                   (case get (symbol ''='') s1 of
                      (Some equal, s2) \<Rightarrow>
                        andthen (provide_identifiers scope expression s2)
                          (\<lambda>default s3. (Inr (Some default), s3))
                    | (None, s2) \<Rightarrow> (Inr None, s2))
                   (\<lambda>default s3.
                      let argument =
                            AstFunctionSignatureArgument (location name, current_end s3)
                              (val name) default
                      in case get (symbol '','') s3 of
                           (None, s4) \<Rightarrow>
                             andthen (expect (symbol '')'') s4)
                               (\<lambda>close s5. (Inr (arguments @ [argument]), s5))
                         | (Some comma, s4) \<Rightarrow>
                             spec_signature_arguments n expression (insert (val name) scope)
                               (arguments @ [argument]) s4)))"

definition spec_parse_function_signature :: "nat \<Rightarrow> parser \<Rightarrow> parser" where
  "spec_parse_function_signature fuel expression s =
     andthen (expect is_identifier s)
       (\<lambda>identifier s1.
          andthen (expect (symbol ''('') s1)
            (\<lambda>opening s2.
               andthen
                 (with_ignore_newline
                    (spec_signature_arguments fuel expression
                       (insert (val identifier) (identifiers s)) []) s2)
                 (\<lambda>arguments s3.
                    (Inr (AstFunctionSignature (location identifier, current_end s3)
                            (val identifier) arguments),
                     s3\<lparr>identifiers := insert (val identifier) (identifiers s3),
                        pending_identifiers :=
                          pending_identifiers s3 \<union> set (map argument_name arguments)\<rparr>))))"

section \<open>ImportStatementHandler\<close>

text \<open>\<^verbatim>\<open>dict.setdefault\<close>: an entry that is there stays.\<close>

definition setdefault :: "('k \<rightharpoonup> 'v) \<Rightarrow> 'k \<Rightarrow> 'v \<Rightarrow> ('k \<rightharpoonup> 'v)" where
  "setdefault m k v = (if k \<in> dom m then m else m(k \<mapsto> v))"

text \<open>\<^verbatim>\<open>path.partition(".")[0]\<close>: what stands before the first dot.\<close>

definition first_segment :: "string \<Rightarrow> string" where
  "first_segment path = takeWhile (\<lambda>c. c \<noteq> CHR ''.'') path"

text \<open>
  \<^verbatim>\<open>AstResourceLocation.get_value\<close> belongs to the host library: the tag mark, the
  namespace with its colon when there is one, and the path.
\<close>

definition get_value :: "bool \<Rightarrow> string option \<Rightarrow> string \<Rightarrow> string" where
  "get_value is_tag namespace path =
     (if is_tag then ''#'' else []) @
     (case namespace of None \<Rightarrow> [] | Some ns \<Rightarrow> if ns = [] then [] else ns @ '':'') @ path"

definition bind_local :: "string \<Rightarrow> stream \<Rightarrow> stream" where
  "bind_local name s =
     s\<lparr>identifiers := insert name (identifiers s),
       identifiers_storage := setdefault (identifiers_storage s) name ''local''\<rparr>"

text \<open>
  The \<^verbatim>\<open>while True\<close> loop over the chain of \<^verbatim>\<open>from:module:import:name:subcommand\<close> nodes.
\<close>

fun bind_imported_names :: "node \<Rightarrow> stream \<Rightarrow> unit result" where
  "bind_imported_names (AstCommand l ident []) s = (Inl IndexError, s)"
| "bind_imported_names (AstCommand l ident [name]) s =
     (let s1 = (case name of AstImportedIdentifier _ v \<Rightarrow> bind_local v s | _ \<Rightarrow> s)
      in if ident = ''from:module:import:name:subcommand'' then (Inl IndexError, s1)
         else (Inr (), s1))"
| "bind_imported_names (AstCommand l ident (name # subcommand # rest)) s =
     (let s1 = (case name of AstImportedIdentifier _ v \<Rightarrow> bind_local v s | _ \<Rightarrow> s)
      in if ident = ''from:module:import:name:subcommand'' then bind_imported_names subcommand s1
         else (Inr (), s1))"
| "bind_imported_names other s = (Inl AttributeError, s)"

definition ImportStatementHandler :: "parser \<Rightarrow> parser" where
  "ImportStatementHandler parser s =
     andthen (parser s)
       (\<lambda>node s'.
          case node of
            AstCommand l ident arguments \<Rightarrow>
              if ident = ''import:module'' then
                (case arguments of
                   [] \<Rightarrow> (Inl IndexError, s')
                 | AstResourceLocation ml is_tag namespace path # _ \<Rightarrow>
                     if namespace \<noteq> None \<and> namespace \<noteq> Some [] then
                       (Inl (InvalidSyntax
                               (''Can't import '' @ repr (get_value is_tag namespace path) @
                                '' without alias.'') [] (fst ml) (snd ml)), s')
                     else (Inr node, s'\<lparr>identifiers := insert (first_segment path) (identifiers s')\<rparr>)
                 | _ \<Rightarrow> (Inr node, s'))
              else if ident = ''import:module:as:alias'' then
                (case arguments of
                   _ # AstImportedIdentifier _ alias # _ \<Rightarrow> (Inr node, bind_local alias s')
                 | _ # _ # _ \<Rightarrow> (Inr node, s')
                 | _ \<Rightarrow> (Inl IndexError, s'))
              else if ident = ''from:module:import:subcommand'' then
                (case arguments of
                   _ # subcommand # _ \<Rightarrow>
                     (case bind_imported_names subcommand s' of
                        (Inl e, s'') \<Rightarrow> (Inl e, s'')
                      | (Inr u, s'') \<Rightarrow> (Inr node, s''))
                 | _ \<Rightarrow> (Inl IndexError, s'))
              else (Inr node, s')
          | _ \<Rightarrow> (Inr node, s'))"

text \<open>The names a chain of import subcommands lists, in order.\<close>

fun imported_names :: "node \<Rightarrow> string list" where
  "imported_names (AstCommand l ident (name # subcommand # rest)) =
     (case name of AstImportedIdentifier _ v \<Rightarrow> [v] | _ \<Rightarrow> []) @
     (if ident = ''from:module:import:name:subcommand'' then imported_names subcommand else [])"
| "imported_names (AstCommand l ident [name]) =
     (case name of AstImportedIdentifier _ v \<Rightarrow> [v] | _ \<Rightarrow> [])"
| "imported_names other = []"

section \<open>Expression parsers\<close>

text \<open>
  Helpers of the host library that the parsers call, taken as parameters: the unquoting
  of a string token, the conversion of a number token, the resolution of a relative
  resource location, and the position after a line continuation, if there is one.
\<close>

record library =
  unquote_string :: "string \<Rightarrow> string"
  string_to_number :: "string \<Rightarrow> pyvalue"
  resolve_using_database :: "string \<Rightarrow> string"
  find_line_continuation :: "stream \<Rightarrow> nat option"

text \<open>
  Modelled from the spec: \<^verbatim>\<open>normalize_whitespace\<close> (host library) turns every run of
  whitespace into a single space.
\<close>

definition is_space :: "char \<Rightarrow> bool" where
  "is_space c = (c = CHR '' '' \<or> c = CHR 0x09 \<or> c = CHR 0x0A \<or> c = CHR 0x0D)"

function normalize_whitespace :: "string \<Rightarrow> string" where
  "normalize_whitespace [] = []"
| "normalize_whitespace (c # cs) =
     (if is_space c then CHR '' '' # normalize_whitespace (dropWhile is_space cs)
      else c # normalize_whitespace cs)"
  by pat_completeness auto
termination
  by (relation "measure length") (auto simp: less_Suc_eq_le length_dropWhile_le)

text \<open>
  The rule \<^verbatim>\<open>operator\<close> of a binary or unary parser is the alternation of its operators;
  an operator is given by its text with single spaces.
\<close>

definition is_operator :: "string list \<Rightarrow> token \<Rightarrow> bool" where
  "is_operator operators t = (kind t = Symbol \<and> normalize_whitespace (val t) \<in> set operators)"

text \<open>
  The loop \<^verbatim>\<open>for op in stream.collect("operator")\<close>: while the next token is an operator,
  it is consumed and an operand is parsed. Loops that call a parser given as an argument
  have fuel: nothing is known of what that parser does to the stream.
\<close>

fun collect_operations ::
  "nat \<Rightarrow> string list \<Rightarrow> parser \<Rightarrow> node list \<Rightarrow> string list \<Rightarrow> stream \<Rightarrow>
   (node list \<times> string list) result" where
  "collect_operations 0 operators parser nodes operations s = (Inl OutOfFuel, s)"
| "collect_operations (Suc n) operators parser nodes operations s =
     (case get (is_operator operators) s of
        (None, s1) \<Rightarrow> (Inr (nodes, operations), s1)
      | (Some op, s1) \<Rightarrow>
          andthen (parser s1)
            (\<lambda>node s2.
               collect_operations n operators parser (nodes @ [node])
                 (operations @ [normalize_whitespace (val op)]) s2))"

definition binary_node :: "string \<Rightarrow> node \<Rightarrow> node \<Rightarrow> node" where
  "binary_node op left right =
     AstExpressionBinary (node_location left, node_end_location right) op left right"

text \<open>The loop \<^verbatim>\<open>for op, node in zip(operations, nodes)\<close>.\<close>

fun fold_operations :: "bool \<Rightarrow> node \<Rightarrow> (string \<times> node) list \<Rightarrow> node" where
  "fold_operations right_associative result [] = result"
| "fold_operations right_associative result ((op, node) # rest) =
     fold_operations right_associative
       (if right_associative then binary_node op node result else binary_node op result node)
       rest"

definition BinaryParser :: "nat \<Rightarrow> string list \<Rightarrow> parser \<Rightarrow> bool \<Rightarrow> parser" where
  "BinaryParser fuel operators parser right_associative s =
     andthen (parser s)
       (\<lambda>first s1.
          andthen (collect_operations fuel operators parser [first] [] s1)
            (\<lambda>(nodes, operations) s2.
               if right_associative
               then (Inr (fold_operations True (last nodes)
                            (zip (rev operations) (rev (butlast nodes)))), s2)
               else (Inr (fold_operations False (hd nodes) (zip operations (tl nodes))), s2)))"

fun UnaryParser :: "nat \<Rightarrow> string list \<Rightarrow> parser \<Rightarrow> parser" where
  "UnaryParser 0 operators parser s = (Inl OutOfFuel, s)"
| "UnaryParser (Suc n) operators parser s =
     (case get (is_operator operators) s of
        (Some op, s1) \<Rightarrow>
          andthen (UnaryParser n operators parser s1)
            (\<lambda>value s2.
               (Inr (AstExpressionUnary (location op, node_end_location value)
                       (normalize_whitespace (val op)) value), s2))
      | (None, s1) \<Rightarrow> parser s1)"

text \<open>
  Modelled from the spec: \<^verbatim>\<open>stream.choose\<close> and the host's \<^verbatim>\<open>AlternativeParser\<close> try the
  alternatives in order; a syntax error of an alternative rolls the input position back
  (the tables an alternative wrote stay written) and the next one is tried; when all
  fail, the best candidate is raised, taken here as the error furthest in the input, the
  earliest among equals.
\<close>

fun is_syntax_error :: "error \<Rightarrow> bool" where
  "is_syntax_error (InvalidSyntax _ _ _ _) = True"
| "is_syntax_error (UndefinedIdentifier _ _ _ _ _) = True"
| "is_syntax_error (UnexpectedToken _) = True"
| "is_syntax_error UnexpectedEOF = True"
| "is_syntax_error _ = False"

fun error_location :: "error \<Rightarrow> location" where
  "error_location (InvalidSyntax _ _ l _) = l"
| "error_location (UndefinedIdentifier _ _ _ l _) = l"
| "error_location (UnexpectedToken t) = location t"
| "error_location _ = 0"

fun best_error :: "error list \<Rightarrow> error" where
  "best_error [] = UnexpectedEOF"
| "best_error [e] = e"
| "best_error (e # es) =
     (let b = best_error es in if error_location b > error_location e then b else e)"

fun stream_choose :: "(stream \<Rightarrow> 'a result) list \<Rightarrow> error list \<Rightarrow> stream \<Rightarrow> 'a result" where
  "stream_choose [] errors s = (Inl (best_error errors), s)"
| "stream_choose (alternative # alternatives) errors s =
     (case alternative s of
        (Inr x, s') \<Rightarrow> (Inr x, s')
      | (Inl e, s') \<Rightarrow>
          if is_syntax_error e then stream_choose alternatives (errors @ [e]) (s'\<lparr>index := index s\<rparr>)
          else (Inl e, s'))"

definition AlternativeParser :: "parser list \<Rightarrow> parser" where
  "AlternativeParser parsers s = stream_choose parsers [] s"

definition UnpackParser :: "parser \<Rightarrow> parser" where
  "UnpackParser parser s =
     andthen (expect (\<lambda>t. symbol ''**'' t \<or> symbol ''*'' t) s)
       (\<lambda>prefix s1.
          andthen (parser s1)
            (\<lambda>node s2.
               (Inr (AstUnpack (location prefix, node_end_location node)
                       (if val prefix = ''**'' then ''dict'' else ''list'') node), s2)))"

text \<open>\<^verbatim>\<open>str.capitalize\<close> on the two unpack types.\<close>

definition capitalize :: "string \<Rightarrow> string" where
  "capitalize t = (if t = ''dict'' then ''Dict'' else if t = ''list'' then ''List'' else t)"

definition UnpackConstraint :: "string \<Rightarrow> parser \<Rightarrow> parser" where
  "UnpackConstraint type parser s =
     andthen (parser s)
       (\<lambda>node s1.
          case node of
            AstUnpack l t v \<Rightarrow>
              if t \<noteq> type
              then (Inl (InvalidSyntax (capitalize t @ '' unpacking not allowed.'') []
                          (fst l) (snd l)), s1)
              else (Inr node, s1)
          | _ \<Rightarrow> (Inr node, s1))"

definition KeywordParser :: "parser \<Rightarrow> parser" where
  "KeywordParser parser s =
     andthen (expect is_identifier s)
       (\<lambda>name s1.
          andthen (expect (symbol ''='') s1)
            (\<lambda>equal s2.
               andthen (parser s2)
                 (\<lambda>node s3.
                    (Inr (AstKeyword (location name, node_end_location node) (val name) node), s3))))"

text \<open>\<^verbatim>\<open>stream.provide\<close> of the two lookup flags.\<close>

definition provide_bolt_lookup :: "(stream \<Rightarrow> 'a result) \<Rightarrow> stream \<Rightarrow> 'a result" where
  "provide_bolt_lookup body s =
     (case body (s\<lparr>bolt_lookup := True\<rparr>) of
        (r, s') \<Rightarrow> (r, s'\<lparr>bolt_lookup := bolt_lookup s\<rparr>))"

definition provide_bolt_format_string :: "(stream \<Rightarrow> 'a result) \<Rightarrow> stream \<Rightarrow> 'a result" where
  "provide_bolt_format_string body s =
     (case body (s\<lparr>bolt_format_string := True\<rparr>) of
        (r, s') \<Rightarrow> (r, s'\<lparr>bolt_format_string := bolt_format_string s\<rparr>))"

text \<open>
  A \<^verbatim>\<open>stream.get\<close> under a checkpoint that is never committed looks at the next token
  and leaves the position where it was.
\<close>

definition separator_ahead :: "stream \<Rightarrow> bool" where
  "separator_ahead s =
     (case peek s of None \<Rightarrow> False | Some t \<Rightarrow> symbol '','' t \<or> symbol '']'' t)"

text \<open>What \<^verbatim>\<open>LookupParser\<close> does once the first colon is consumed.\<close>

definition slice_rest :: "parser \<Rightarrow> node option \<Rightarrow> location \<Rightarrow> stream \<Rightarrow> node result" where
  "slice_rest parser start loc s =
     (case get (symbol '':'') s of
        (colon2, s1) \<Rightarrow>
          andthen
            (if colon2 = None \<and> \<not> separator_ahead s1
             then andthen (parser s1)
                    (\<lambda>stop s2.
                       case get (symbol '':'') s2 of
                         (colon2, s3) \<Rightarrow> (Inr (Some stop, colon2), s3))
             else (Inr (None, colon2), s1))
            (\<lambda>(stop, colon2) s3.
               andthen
                 (if colon2 \<noteq> None \<and> \<not> separator_ahead s3
                  then andthen (parser s3) (\<lambda>step s4. (Inr (Some step), s4))
                  else (Inr None, s3))
                 (\<lambda>step s4. (Inr (AstSlice (loc, current_end s4) start stop step), s4))))"

definition LookupParser :: "parser \<Rightarrow> parser" where
  "LookupParser parser s =
     provide_bolt_lookup
       (\<lambda>s.
          case get (symbol '':'') s of
            (Some colon1, s1) \<Rightarrow> slice_rest parser None (location colon1) s1
          | (None, s1) \<Rightarrow>
              andthen (parser s1)
                (\<lambda>start s2.
                   case get (symbol '':'') s2 of
                     (None, s3) \<Rightarrow> (Inr start, s3)
                   | (Some colon1, s3) \<Rightarrow>
                       slice_rest parser (Some start) (node_location start) s3))
       s"

section \<open>PrimaryParser\<close>

text \<open>The loop over \<^verbatim>\<open>stream.peek_until(("brace", ")"))\<close> of a parenthesised group.\<close>

fun tuple_items :: "nat \<Rightarrow> parser \<Rightarrow> node list \<Rightarrow> bool \<Rightarrow> stream \<Rightarrow> (node list \<times> bool) result" where
  "tuple_items 0 expression items comma s = (Inl OutOfFuel, s)"
| "tuple_items (Suc n) expression items comma s =
     (case peek s of
        None \<Rightarrow> (Inl UnexpectedEOF, s)
      | Some t \<Rightarrow>
          if symbol '')'' t then (Inr (items, comma), advance s)
          else
            andthen (expression s)
              (\<lambda>item s1.
                 case get (symbol '','') s1 of
                   (None, s2) \<Rightarrow>
                     andthen (expect (symbol '')'') s2)
                       (\<lambda>close s3. (Inr (items @ [item], False), s3))
                 | (Some c, s2) \<Rightarrow> tuple_items n expression (items @ [item]) True s2))"

text \<open>
  The loop over \<^verbatim>\<open>stream.collect("escape", "double_brace", ("brace", "{"), "text")\<close> of a
  format string.
\<close>

definition double_brace :: "token \<Rightarrow> bool" where
  "double_brace t = (symbol ''{{'' t \<or> symbol ''}}'' t)"

fun format_string_parts ::
  "nat \<Rightarrow> parser \<Rightarrow> string \<Rightarrow> node list \<Rightarrow> stream \<Rightarrow> (string \<times> node list) result" where
  "format_string_parts 0 expression fmt values s = (Inl OutOfFuel, s)"
| "format_string_parts (Suc n) expression fmt values s =
     (case get (\<lambda>t. kind t = Escape \<or> double_brace t \<or> symbol ''{'' t \<or> kind t = Text) s of
        (None, s1) \<Rightarrow> (Inr (fmt, values), s1)
      | (Some t, s1) \<Rightarrow>
          if kind t = Escape then format_string_parts n expression (fmt @ val t) values s1
          else if double_brace t then format_string_parts n expression (fmt @ val t) values s1
          else if symbol ''{'' t then
            andthen (expression s1)
              (\<lambda>v s2.
                 case get (\<lambda>t. kind t = Spec) s2 of
                   (spec, s3) \<Rightarrow>
                     andthen (expect (symbol ''}'') s3)
                       (\<lambda>close s4.
                          format_string_parts n expression
                            (fmt @ ''{'' @ (case spec of None \<Rightarrow> [] | Some sp \<Rightarrow> val sp) @ ''}'')
                            (values @ [v]) s4))
          else format_string_parts n expression (fmt @ val t) values s1)"

text \<open>
  The checks of one call or subscript argument, up to the exception: the value of
  \<^verbatim>\<open>allow_positional\<close> after the argument, or the error, located at the argument by
  \<^verbatim>\<open>argument.emit_error\<close>.
\<close>

definition check_argument :: "bool \<Rightarrow> node \<Rightarrow> error + bool" where
  "check_argument allow_positional argument =
     (case argument of
        AstKeyword l name v \<Rightarrow> Inr False
      | AstUnpack l type v \<Rightarrow>
          if type = ''dict'' then Inr False
          else if \<not> allow_positional
          then Inl (InvalidSyntax ''List unpacking not allowed after keyword arguments.'' []
                      (node_location argument) (node_end_location argument))
          else Inr allow_positional
      | _ \<Rightarrow>
          if \<not> allow_positional
          then Inl (InvalidSyntax ''Positional argument not allowed after keyword arguments.'' []
                      (node_location argument) (node_end_location argument))
          else Inr allow_positional)"

text \<open>The loop over \<^verbatim>\<open>stream.peek_until(close)\<close> of a call or a subscript.\<close>

fun call_arguments ::
  "nat \<Rightarrow> parser \<Rightarrow> (token \<Rightarrow> bool) \<Rightarrow> bool \<Rightarrow> node list \<Rightarrow> stream \<Rightarrow> (node list) result" where
  "call_arguments 0 argument_parser close allow_positional arguments s = (Inl OutOfFuel, s)"
| "call_arguments (Suc n) argument_parser close allow_positional arguments s =
     (case peek s of
        None \<Rightarrow> (Inl UnexpectedEOF, s)
      | Some t \<Rightarrow>
          if close t then (Inr arguments, advance s)
          else
            andthen (argument_parser s)
              (\<lambda>argument s1.
                 case check_argument allow_positional argument of
                   Inl e \<Rightarrow> (Inl e, s1)
                 | Inr allow_positional \<Rightarrow>
                     (case get (symbol '','') s1 of
                        (None, s2) \<Rightarrow>
                          andthen (expect close s2)
                            (\<lambda>closing s3. (Inr (arguments @ [argument]), s3))
                      | (Some c, s2) \<Rightarrow>
                          call_arguments n argument_parser close allow_positional
                            (arguments @ [argument]) s2)))"

text \<open>\<^verbatim>\<open>int\<close> of a token of decimal digits.\<close>

definition int_of_digits :: "string \<Rightarrow> int" where
  "int_of_digits ds = foldl (\<lambda>n c. 10 * n + (int (of_char c) - 48)) 0 ds"

definition is_digit :: "char \<Rightarrow> bool" where
  "is_digit c = (48 \<le> (of_char c :: nat) \<and> (of_char c :: nat) \<le> 57)"

text \<open>The rule \<^verbatim>\<open>number\<close> of the postfix loop, \<^verbatim>\<open>(?:0|[1-9][0-9]*)\<close>.\<close>

definition is_integer :: "token \<Rightarrow> bool" where
  "is_integer t =
     (kind t = Number \<and>
      (val t = ''0'' \<or> (val t \<noteq> [] \<and> hd (val t) \<noteq> CHR ''0'' \<and> list_all is_digit (val t))))"

text \<open>
  The \<^verbatim>\<open>while\<close> loop of postfix operators. The registry is the parameter \<open>delegate\<close>.
\<close>

fun postfix :: "nat \<Rightarrow> library \<Rightarrow> (string \<Rightarrow> parser) \<Rightarrow> node \<Rightarrow> stream \<Rightarrow> node result" where
  "postfix 0 lib delegate node s = (Inl OutOfFuel, s)"
| "postfix (Suc n) lib delegate node s =
     (case get (\<lambda>t. symbol ''.'' t \<or> symbol ''('' t \<or> symbol ''['' t) s of
        (None, s1) \<Rightarrow> (Inr node, s1)
      | (Some token, s1) \<Rightarrow>
          if symbol ''.'' token then
            andthen (expect (\<lambda>t. is_identifier t \<or> kind t = String \<or> is_integer t) s1)
              (\<lambda>t s2.
                 if is_identifier t
                 then postfix n lib delegate
                        (AstAttribute (node_location node, end_location t) node (val t)) s2
                 else
                   let v = (if kind t = String then VStr (unquote_string lib (val t))
                            else VInt (int_of_digits (val t)));
                       arguments = [AstValue (location t, end_location t) v]
                   in postfix n lib delegate
                        (AstLookup (node_location node, current_end s2) node arguments) s2)
          else
            andthen
              (with_ignore_newline
                 (if symbol ''('' token
                  then call_arguments n (delegate ''bolt:call_argument'') (symbol '')'') True []
                  else call_arguments n (delegate ''bolt:lookup_argument'') (symbol '']'') True [])
                 s1)
              (\<lambda>arguments s2.
                 if symbol ''('' token
                 then postfix n lib delegate
                        (AstCall (node_location node, current_end s2) node arguments) s2
                 else
                   let arguments =
                         (if arguments = []
                          then [AstSlice (node_end_location node, current_end s2) None None None]
                          else arguments)
                   in postfix n lib delegate
                        (AstLookup (node_location node, current_end s2) node arguments) s2))"

definition is_format_string :: "token \<Rightarrow> bool" where
  "is_format_string t = (kind t = Symbol \<and> (val t = [CHR ''f'', CHR 0x27] \<or> val t = [CHR ''f'', CHR 0x22]))"

definition PrimaryParser :: "nat \<Rightarrow> library \<Rightarrow> (string \<Rightarrow> parser) \<Rightarrow> parser \<Rightarrow> parser" where
  "PrimaryParser fuel lib delegate parser s =
     andthen
       (case get (\<lambda>t. symbol ''('' t \<or> is_format_string t) s of
          (Some token, s1) \<Rightarrow>
            if symbol ''('' token then
              with_ignore_newline
                (\<lambda>s. andthen (tuple_items fuel (delegate ''bolt:expression'') [] False s)
                       (\<lambda>(items, comma) s2.
                          if length items = 1 \<and> \<not> comma then (Inr (items ! 0), s2)
                          else (Inr (AstTuple (location token, current_end s2) items), s2)))
                s1
            else
              provide_bolt_format_string
                (\<lambda>s. andthen
                        (format_string_parts fuel (delegate ''bolt:expression'')
                           [last (val token)] [] s)
                        (\<lambda>(fmt, values) s2.
                           andthen (expect (symbol [last (val token)]) s2)
                             (\<lambda>end_quote s3.
                                (Inr (AstFormatString (location token, end_location end_quote)
                                        (unquote_string lib (fmt @ val end_quote)) values), s3))))
                s1
        | (None, s1) \<Rightarrow> parser s1)
       (\<lambda>node s2. postfix fuel lib delegate node s2)"

section \<open>Literals\<close>

text \<open>The loop over \<^verbatim>\<open>stream.peek_until\<close> of a dict or list literal.\<close>

fun literal_items :: "nat \<Rightarrow> parser \<Rightarrow> (token \<Rightarrow> bool) \<Rightarrow> node list \<Rightarrow> stream \<Rightarrow> (node list) result" where
  "literal_items 0 item_parser close items s = (Inl OutOfFuel, s)"
| "literal_items (Suc n) item_parser close items s =
     (case peek s of
        None \<Rightarrow> (Inl UnexpectedEOF, s)
      | Some t \<Rightarrow>
          if close t then (Inr items, advance s)
          else
            andthen (item_parser s)
              (\<lambda>item s1.
                 case get (symbol '','') s1 of
                   (None, s2) \<Rightarrow>
                     andthen (expect close s2) (\<lambda>closing s3. (Inr (items @ [item]), s3))
                 | (Some c, s2) \<Rightarrow> literal_items n item_parser close (items @ [item]) s2))"

definition is_true :: "token \<Rightarrow> bool" where
  "is_true t = (kind t = Symbol \<and> (val t = ''true'' \<or> val t = ''True''))"

definition is_false :: "token \<Rightarrow> bool" where
  "is_false t = (kind t = Symbol \<and> (val t = ''false'' \<or> val t = ''False''))"

definition is_null :: "token \<Rightarrow> bool" where
  "is_null t = (kind t = Symbol \<and> (val t = ''null'' \<or> val t = ''None''))"

definition starts_with :: "string \<Rightarrow> string \<Rightarrow> bool" where
  "starts_with prefix s = (take (length prefix) s = prefix)"

definition LiteralParser :: "nat \<Rightarrow> library \<Rightarrow> (string \<Rightarrow> parser) \<Rightarrow> parser" where
  "LiteralParser fuel lib delegate s =
     andthen
       (expect (\<lambda>t. symbol ''{'' t \<or> symbol ''['' t \<or> is_true t \<or> is_false t \<or> is_null t \<or>
                    kind t = String \<or>
                    (kind t = Resource \<and> \<not> (bolt_lookup s \<or> bolt_format_string s)) \<or>
                    kind t = Number) s)
       (\<lambda>t s1.
          if symbol ''{'' t then
            andthen
              (with_ignore_newline
                 (literal_items fuel (delegate ''bolt:dict_item'') (symbol ''}'') []) s1)
              (\<lambda>items s2. (Inr (AstDict (location t, current_end s2) items), s2))
          else if symbol ''['' t then
            andthen
              (with_ignore_newline
                 (literal_items fuel (delegate ''bolt:list_item'') (symbol '']'') []) s1)
              (\<lambda>elements s2. (Inr (AstList (location t, current_end s2) elements), s2))
          else
            (Inr (AstValue (location t, end_location t)
                    (if is_true t then VBool True
                     else if is_false t then VBool False
                     else if is_null t then VNone
                     else if kind t = String then VStr (unquote_string lib (val t))
                     else if kind t = Resource then
                       (if starts_with ''./'' (val t) \<or> starts_with ''../'' (val t)
                        then VStr (resolve_using_database lib (val t))
                        else VStr (val t))
                     else string_to_number lib (val t))), s1))"

text \<open>
  \<^verbatim>\<open>parse_dict_item\<close>. The checkpoint swallows a syntax error raised before the commit
  and rolls the position back; the key is then a full expression.
\<close>

definition parse_dict_item :: "(string \<Rightarrow> parser) \<Rightarrow> parser" where
  "parse_dict_item delegate s =
     andthen
       (case expect is_identifier s of
          (Inr identifier, s1) \<Rightarrow>
            (case expect (symbol '':'') s1 of
               (Inr colon, s2) \<Rightarrow>
                 (Inr (if val identifier \<in> identifiers s2
                       then AstIdentifier (location identifier, end_location identifier)
                              (val identifier)
                       else AstValue (location identifier, end_location identifier)
                              (VStr (val identifier))), s2)
             | (Inl e, s2) \<Rightarrow>
                 andthen (delegate ''bolt:expression'' (s2\<lparr>index := index s\<rparr>))
                   (\<lambda>key s3. andthen (expect (symbol '':'') s3) (\<lambda>colon s4. (Inr key, s4))))
        | (Inl e, s1) \<Rightarrow>
            andthen (delegate ''bolt:expression'' (s1\<lparr>index := index s\<rparr>))
              (\<lambda>key s3. andthen (expect (symbol '':'') s3) (\<lambda>colon s4. (Inr key, s4))))
       (\<lambda>key s5.
          andthen (delegate ''bolt:expression'' s5)
            (\<lambda>v s6. (Inr (AstDictItem (node_location key, node_end_location v) key v), s6)))"

section \<open>parse_statement\<close>

definition is_assignment :: "token \<Rightarrow> bool" where
  "is_assignment t =
     (kind t = Symbol \<and>
      val t \<in> set [''='', ''+='', ''-='', ''*='', ''//='', ''/='', ''%='', ''&='', ''|='', ''^='',
                   ''<<='', ''>>='', ''**=''])"

text \<open>The body of one alternative of \<^verbatim>\<open>parse_statement\<close>, for the parser of that name.\<close>

definition statement_alternative :: "(stream \<Rightarrow> nat option) \<Rightarrow> (string \<Rightarrow> parser) \<Rightarrow> string \<Rightarrow> parser" where
  "statement_alternative continuation delegate parser s =
     andthen
       (delegate parser (s\<lparr>pending_identifiers := {}, pending_identifiers_storage := Map.empty\<rparr>))
       (\<lambda>node s1.
          andthen
            (if is_AstTarget node then
               andthen
                 (expect (if parser = ''bolt:assignment_target'' then symbol ''='' else is_assignment) s1)
                 (\<lambda>op s2.
                    andthen (delegate ''bolt:expression'' s2)
                      (\<lambda>expression s3.
                         (Inr (AstAssignment (node_location node, node_end_location expression)
                                 (val op) node expression),
                          s3\<lparr>identifiers := identifiers s3 \<union> pending_identifiers s3,
                             pending_identifiers := {},
                             identifiers_storage :=
                               identifiers_storage s3 ++ pending_identifiers_storage s3,
                             pending_identifiers_storage := Map.empty\<rparr>)))
             else
               (case node of
                  AstAttribute l v name \<Rightarrow>
                    (case get is_assignment s1 of
                       (None, s2) \<Rightarrow> (Inr node, s2)
                     | (Some op, s2) \<Rightarrow>
                         andthen (delegate ''bolt:expression'' s2)
                           (\<lambda>expression s3.
                              (Inr (AstAssignment (fst l, node_end_location expression) (val op)
                                      (AstTargetAttribute l name v) expression), s3)))
                | AstLookup l v arguments \<Rightarrow>
                    (case get is_assignment s1 of
                       (None, s2) \<Rightarrow> (Inr node, s2)
                     | (Some op, s2) \<Rightarrow>
                         andthen (delegate ''bolt:expression'' s2)
                           (\<lambda>expression s3.
                              (Inr (AstAssignment (fst l, node_end_location expression) (val op)
                                      (AstTargetItem l v arguments) expression), s3)))
                | _ \<Rightarrow> (Inr node, s1)))
            (\<lambda>node s4.
               andthen (check_final_expression continuation s4) (\<lambda>u s5. (Inr node, s5))))"

definition parse_statement :: "(stream \<Rightarrow> nat option) \<Rightarrow> (string \<Rightarrow> parser) \<Rightarrow> parser" where
  "parse_statement continuation delegate s =
     stream_choose
       (map (statement_alternative continuation delegate)
          [''bolt:augmented_assignment_target'', ''bolt:assignment_target'', ''bolt:expression''])
       [] s"

section \<open>The parser registry\<close>

text \<open>
  \<^verbatim>\<open>get_bolt_parsers\<close>, the entries of the statement, of the targets and of the
  expression grammar; looking up any other name is a \<^verbatim>\<open>KeyError\<close> here. The entries look
  each other up by name when they run; \<open>delegate\<close> is that lookup, and the registry is
  closed over itself with fuel, one unit for each lookup. An operator is written as the
  text its regular expression matches, with single spaces.
\<close>

definition get_bolt_parsers :: "nat \<Rightarrow> library \<Rightarrow> (string \<Rightarrow> parser) \<Rightarrow> string \<Rightarrow> parser" where
  "get_bolt_parsers fuel lib delegate name =
     (if name = ''bolt:statement'' then parse_statement (find_line_continuation lib) delegate
      else if name = ''bolt:assignment_target'' then AssignmentTargetParser True True
      else if name = ''bolt:augmented_assignment_target'' then AssignmentTargetParser False False
      else if name = ''bolt:function_signature''
        then parse_function_signature fuel (delegate ''bolt:expression'')
      else if name = ''bolt:interpolation''
        then PrimaryParser fuel lib delegate (delegate ''bolt:identifier'')
      else if name = ''bolt:identifier'' then parse_identifier
      else if name = ''bolt:expression'' then delegate ''bolt:disjunction''
      else if name = ''bolt:disjunction''
        then BinaryParser fuel [''or''] (delegate ''bolt:conjunction'') False
      else if name = ''bolt:conjunction''
        then BinaryParser fuel [''and''] (delegate ''bolt:inversion'') False
      else if name = ''bolt:inversion''
        then UnaryParser fuel [''not''] (delegate ''bolt:comparison'')
      else if name = ''bolt:comparison''
        then BinaryParser fuel
               [''=='', ''!='', ''<='', ''<'', ''>='', ''>'', ''not in'', ''in'', ''is not'', ''is'']
               (delegate ''bolt:bitwise_or'') False
      else if name = ''bolt:bitwise_or''
        then BinaryParser fuel [''|''] (delegate ''bolt:bitwise_xor'') False
      else if name = ''bolt:bitwise_xor''
        then BinaryParser fuel [''^''] (delegate ''bolt:bitwise_and'') False
      else if name = ''bolt:bitwise_and''
        then BinaryParser fuel [''&''] (delegate ''bolt:shift_expr'') False
      else if name = ''bolt:shift_expr''
        then BinaryParser fuel [''<<'', ''>>''] (delegate ''bolt:sum'') False
      else if name = ''bolt:sum''
        then BinaryParser fuel [''+'', ''-''] (delegate ''bolt:term'') False
      else if name = ''bolt:term''
        then BinaryParser fuel [''*'', ''//'', ''/'', ''%''] (delegate ''bolt:factor'') False
      else if name = ''bolt:factor''
        then UnaryParser fuel [''+'', ''-''] (delegate ''bolt:power'')
      else if name = ''bolt:power''
        then BinaryParser fuel [''**''] (delegate ''bolt:primary'') True
      else if name = ''bolt:lookup_argument'' then LookupParser (delegate ''bolt:expression'')
      else if name = ''bolt:call_argument''
        then AlternativeParser
               [KeywordParser (delegate ''bolt:expression''),
                UnpackParser (delegate ''bolt:expression''),
                delegate ''bolt:expression'']
      else if name = ''bolt:primary''
        then PrimaryParser fuel lib delegate (delegate ''bolt:atom'')
      else if name = ''bolt:atom''
        then AlternativeParser [delegate ''bolt:identifier'', delegate ''bolt:literal'']
      else if name = ''bolt:list_item''
        then AlternativeParser
               [UnpackConstraint ''list'' (UnpackParser (delegate ''bolt:expression'')),
                delegate ''bolt:expression'']
      else if name = ''bolt:dict_item''
        then AlternativeParser
               [UnpackConstraint ''dict'' (UnpackParser (delegate ''bolt:expression'')),
                parse_dict_item delegate]
      else if name = ''bolt:literal'' then LiteralParser fuel lib delegate
      else (\<lambda>s. (Inl KeyError, s)))"

primrec delegate :: "library \<Rightarrow> nat \<Rightarrow> string \<Rightarrow> parser" where
  "delegate lib 0 name = (\<lambda>s. (Inl OutOfFuel, s))"
| "delegate lib (Suc n) name = get_bolt_parsers n lib (delegate lib n) name"

section \<open>Verified properties\<close>

lemma char_eq_code: "(c = d) = ((of_char c :: nat) = of_char d)"
  by simp

lemma repr_char_identifier: "identifier_char c \<Longrightarrow> repr_char (CHR 0x27) c = [c]"
  unfolding repr_char_def identifier_char_def identifier_start_def Let_def
  by (auto simp: char_eq_code[of c])

lemma identifier_char_not_quote: "identifier_char c \<Longrightarrow> c \<noteq> CHR 0x27"
  by (auto simp: identifier_char_def identifier_start_def Let_def)

lemma concat_repr_char_identifier:
  "list_all identifier_char s \<Longrightarrow> concat (map (repr_char (CHR 0x27)) s) = s"
  by (induction s) (simp_all add: repr_char_identifier)

lemma identifier_chars_all: "identifier_chars s \<Longrightarrow> list_all identifier_char s"
  by (cases s) (simp_all add: identifier_chars_def identifier_char_def)

lemma repr_identifier: "identifier_chars s \<Longrightarrow> repr s = [CHR 0x27] @ s @ [CHR 0x27]"
proof -
  assume a: "identifier_chars s"
  then have all: "list_all identifier_char s" by (rule identifier_chars_all)
  then have "CHR 0x27 \<notin> set s"
    using identifier_char_not_quote by (auto simp: list_all_iff)
  then have "repr_quote s = CHR 0x27" by (simp add: repr_quote_def)
  with all show ?thesis by (simp add: repr_def Let_def concat_repr_char_identifier)
qed

lemma suggestion_eq_spec: "ms \<noteq> [] \<Longrightarrow> suggestion ms = spec_suggestion_join ms"
proof (induction ms rule: spec_suggestion_join.induct)
  case 1
  then show ?case by simp
next
  case (2 a)
  then show ?case by (simp add: suggestion_def)
next
  case (3 a b)
  then show ?case by (simp add: suggestion_def)
next
  case (4 a b c rest)
  have ih: "suggestion (b # c # rest) = spec_suggestion_join (b # c # rest)"
    using 4 by simp
  have len: "length (b # c # rest) \<noteq> 1" by simp
  have "suggestion (a # b # c # rest) =
        join '', '' (a # (butlast (butlast (b # c # rest)) @
          [last (butlast (b # c # rest)) @ '' or '' @ last (b # c # rest)]))"
    by (simp add: suggestion_def Let_def)
  also have "\<dots> = a @ '', '' @ join '', '' (butlast (butlast (b # c # rest)) @
          [last (butlast (b # c # rest)) @ '' or '' @ last (b # c # rest)])"
    by (cases "butlast (butlast (b # c # rest))") simp_all
  also have "join '', '' (butlast (butlast (b # c # rest)) @
          [last (butlast (b # c # rest)) @ '' or '' @ last (b # c # rest)]) = suggestion (b # c # rest)"
    using len unfolding suggestion_def Let_def by (simp only: if_False)
  finally show ?case using ih by simp
qed

text \<open>
  C8. For an offending name \<open>X\<close> made of identifier characters the message is exactly
  \<^verbatim>\<open>Identifier 'X' is not defined.\<close>; when the fuzzy matcher returns matches, it is
  followed by \<^verbatim>\<open> Did you mean ...?\<close>, the quoted matches joined with \<^verbatim>\<open>", "\<close> between all
  but the final pair and \<^verbatim>\<open>" or "\<close> between the final two, and a single match \<open>A\<close> gives
  \<^verbatim>\<open> Did you mean 'A'?\<close>.
\<close>

theorem undefined_identifier_message:
  "identifier_chars (val tok) \<Longrightarrow>
     UndefinedIdentifier_str gcm tok idents =
       ''Identifier '' @ [CHR 0x27] @ val tok @ [CHR 0x27] @ '' is not defined.'' @
       (if gcm (val tok) idents = [] then []
        else '' Did you mean '' @ spec_suggestion_join (map repr (gcm (val tok) idents)) @ ''?'') \<and>
     (\<forall>A. gcm (val tok) idents = [A] \<and> identifier_chars A \<longrightarrow>
        UndefinedIdentifier_str gcm tok idents =
          ''Identifier '' @ [CHR 0x27] @ val tok @ [CHR 0x27] @ '' is not defined.'' @
          '' Did you mean '' @ [CHR 0x27] @ A @ [CHR 0x27] @ ''?'')"
proof -
  assume a: "identifier_chars (val tok)"
  have g: "UndefinedIdentifier_str gcm tok idents =
           ''Identifier '' @ [CHR 0x27] @ val tok @ [CHR 0x27] @ '' is not defined.'' @
           (if gcm (val tok) idents = [] then []
            else '' Did you mean '' @ spec_suggestion_join (map repr (gcm (val tok) idents)) @ ''?'')"
    using a
    by (simp add: UndefinedIdentifier_str_def Let_def repr_identifier suggestion_eq_spec)
  have "\<forall>A. gcm (val tok) idents = [A] \<and> identifier_chars A \<longrightarrow>
         UndefinedIdentifier_str gcm tok idents =
           ''Identifier '' @ [CHR 0x27] @ val tok @ [CHR 0x27] @ '' is not defined.'' @
           '' Did you mean '' @ [CHR 0x27] @ A @ [CHR 0x27] @ ''?''"
    by (simp add: g repr_identifier)
  with g show ?thesis by blast
qed

theorem undefined_identifier_message_witness:
  "identifier_chars ''foo'' \<and>
   UndefinedIdentifier_str (\<lambda>w ids. [''fool'', ''food'', ''for'']) (Token Identifier ''foo'' 0 3)
       {''food'', ''fool'', ''for'', ''bar''} =
     ''Identifier 'foo' is not defined. Did you mean 'fool', 'food' or 'for'?'' \<and>
   UndefinedIdentifier_str (\<lambda>w ids. [''food'']) (Token Identifier ''foo'' 0 3) {''food''} =
     ''Identifier 'foo' is not defined. Did you mean 'food'?''"
proof -
  have h: "identifier_chars ''foo''"
    by (simp add: identifier_chars_def identifier_start_def identifier_char_def)
  have r: "repr ''food'' = ''.food.''[0 := CHR 0x27, 5 := CHR 0x27]"
       "repr ''fool'' = ''.fool.''[0 := CHR 0x27, 5 := CHR 0x27]"
       "repr ''for'' = ''.for.''[0 := CHR 0x27, 4 := CHR 0x27]"
    by (simp_all add: repr_def repr_quote_def repr_char_def Let_def)
  show ?thesis
    using h
      undefined_identifier_message [where tok = "Token Identifier ''foo'' 0 3"
        and gcm = "\<lambda>w ids. [''fool'', ''food'', ''for'']"
        and idents = "{''food'', ''fool'', ''for'', ''bar''}"]
      undefined_identifier_message [where tok = "Token Identifier ''foo'' 0 3"
        and gcm = "\<lambda>w ids. [''food'']" and idents = "{''food''}"]
    by (simp add: r)
qed


subsection \<open>check_final_expression\<close>

text \<open>
  C10. When \<^verbatim>\<open>check_final_expression\<close> succeeds, the stream position is the one at entry:
  if there is no indent continuation and the next token, if any, is a newline or eof
  token, the function returns with \<^verbatim>\<open>stream.index\<close> restored, so that token is not
  consumed; and whenever it returns, the index is the index at entry.
\<close>

theorem check_final_expression_restores_index:
  "(line_continuation s = None \<and>
      (case peek s of None \<Rightarrow> True | Some t \<Rightarrow> kind t = Newline \<or> kind t = Eof) \<longrightarrow>
      check_final_expression line_continuation s = (Inr (), s) \<and>
      peek (snd (check_final_expression line_continuation s)) = peek s) \<and>
   (\<forall>s'. check_final_expression line_continuation s = (Inr (), s') \<longrightarrow>
      index s' = index s \<and> s' = s)"
  by (auto simp: check_final_expression_def consume_line_continuation_def get_def advance_def Let_def
      split: option.splits if_splits prod.splits)

theorem check_final_expression_restores_index_witness:
  "check_final_expression (\<lambda>s. None)
     \<lparr>tokens = [Token Identifier ''x'' 0 1, Token Newline [CHR 0x0A] 1 2, Token Eof [] 2 2],
      index = 1, ignore_newline = False, identifiers = {}, pending_identifiers = {},
      identifiers_storage = Map.empty, pending_identifiers_storage = Map.empty,
      branch_scope = {}, bolt_lookup = False, bolt_format_string = False\<rparr>
   = (Inr (),
     \<lparr>tokens = [Token Identifier ''x'' 0 1, Token Newline [CHR 0x0A] 1 2, Token Eof [] 2 2],
      index = 1, ignore_newline = False, identifiers = {}, pending_identifiers = {},
      identifiers_storage = Map.empty, pending_identifiers_storage = Map.empty,
      branch_scope = {}, bolt_lookup = False, bolt_format_string = False\<rparr>)"
  using check_final_expression_restores_index [where line_continuation = "\<lambda>s. None" and s =
     "\<lparr>tokens = [Token Identifier ''x'' 0 1, Token Newline [CHR 0x0A] 1 2, Token Eof [] 2 2],
      index = 1, ignore_newline = False, identifiers = {}, pending_identifiers = {},
      identifiers_storage = Map.empty, pending_identifiers_storage = Map.empty,
      branch_scope = {}, bolt_lookup = False, bolt_format_string = False\<rparr>"]
  by (simp add: peek_def upcoming_def)

subsection \<open>AssignmentTargetParser\<close>

text \<open>
  C4. With \<^verbatim>\<open>allow_undefined_identifiers = False\<close>, at any iteration of the loop, an
  identifier token whose name is not both in \<^verbatim>\<open>identifiers\<close> and in
  \<^verbatim>\<open>identifiers_storage\<close> raises \<^verbatim>\<open>UndefinedIdentifier\<close> for that token, with the keys
  of \<^verbatim>\<open>identifiers_storage\<close> as known names; the error carries the note
  \<^verbatim>\<open>Use 'global X' or 'nonlocal X' to mutate the variable defined in outer scope.\<close>
  exactly when the name is defined (and so lacks storage).
\<close>

theorem augmented_target_undefined:
  "peek s = Some tok \<and> is_identifier tok \<and>
   \<not> (val tok \<in> identifiers s \<and> val tok \<in> dom (identifiers_storage s)) \<longrightarrow>
     assignment_targets False allow_multiple nodes s =
       (Inl (UndefinedIdentifier tok (dom (identifiers_storage s))
              (if val tok \<in> identifiers s then [undefined_note (val tok)] else [])
              (location tok) (end_location tok)), advance s) \<and>
     AssignmentTargetParser False allow_multiple s =
       (Inl (UndefinedIdentifier tok (dom (identifiers_storage s))
              (if val tok \<in> identifiers s then [undefined_note (val tok)] else [])
              (location tok) (end_location tok)), advance s)"
  by (auto simp: AssignmentTargetParser_def andthen_def expect_def target_identifier_def
      advance_def Let_def)

theorem augmented_target_undefined_witness:
  "peek (new_stream [Token Identifier ''x'' 0 1, Token Symbol ''+='' 2 4, Token Number ''1'' 5 6]
           {''x''} Map.empty) = Some (Token Identifier ''x'' 0 1) \<and>
   is_identifier (Token Identifier ''x'' 0 1) \<and>
   AssignmentTargetParser False False
     (new_stream [Token Identifier ''x'' 0 1, Token Symbol ''+='' 2 4, Token Number ''1'' 5 6]
        {''x''} Map.empty) =
     (Inl (UndefinedIdentifier (Token Identifier ''x'' 0 1) {}
            [''Use 'global x' or 'nonlocal x' to mutate the variable defined in outer scope.''] 0 1),
      (new_stream [Token Identifier ''x'' 0 1, Token Symbol ''+='' 2 4, Token Number ''1'' 5 6]
        {''x''} Map.empty)\<lparr>index := 1\<rparr>)"
  using augmented_target_undefined [where tok = "Token Identifier ''x'' 0 1" and allow_multiple = False
      and s = "new_stream [Token Identifier ''x'' 0 1, Token Symbol ''+='' 2 4, Token Number ''1'' 5 6]
        {''x''} Map.empty"]
  by (simp add: new_stream_def peek_def upcoming_def advance_def is_identifier_def undefined_note_def)

subsection \<open>IfElseLoweringParser\<close>

text \<open>
  The shape of a lowered command list: only commands, no \<^verbatim>\<open>elif\<close> command, and every
  \<^verbatim>\<open>else\<close> command directly after an \<^verbatim>\<open>if\<close> command.
\<close>

definition last_identifier :: "string \<Rightarrow> node list \<Rightarrow> string" where
  "last_identifier p xs = (if xs = [] then p else (case last xs of AstCommand _ i _ \<Rightarrow> i | _ \<Rightarrow> []))"

fun lowered :: "string \<Rightarrow> node list \<Rightarrow> bool" where
  "lowered p [] = True"
| "lowered p (AstCommand l i a # cs) =
     (i \<noteq> ''elif:condition:body'' \<and>
      (i = ''else:body'' \<longrightarrow> p \<in> set [''if:condition:body'', ''elif:condition:body'']) \<and>
      lowered i cs)"
| "lowered p (other # cs) = False"

lemma lowered_fixed:
  "lowered p cs \<Longrightarrow> lower_commands p cs res ch = Inr (res @ cs, ch)"
proof (induction p cs arbitrary: res rule: lowered.induct)
  case (2 p l i a cs)
  then show ?case by (auto simp: branch_identifiers_def)
qed simp_all

lemma lowered_snoc:
  "lowered q (xs @ [AstCommand l i a]) =
     (lowered q xs \<and> i \<noteq> ''elif:condition:body'' \<and>
      (i = ''else:body'' \<longrightarrow> last_identifier q xs \<in> set [''if:condition:body'', ''elif:condition:body'']))"
proof (induction q xs rule: lowered.induct)
  case (1 p)
  then show ?case by (auto simp: last_identifier_def)
next
  case (2 p l' i' a' cs)
  then show ?case by (cases cs) (auto simp: last_identifier_def)
qed simp_all

lemma nest_chain_else:
  "nest_chain xs lst = Inr r \<Longrightarrow> xs \<noteq> [] \<Longrightarrow> \<exists>l root. r = [AstCommand l ''else:body'' [root]]"
proof (induction xs lst arbitrary: r rule: nest_chain.induct)
  case (2 l ident args stmts lst)
  then show ?case by (cases stmts) (auto simp: Let_def)
qed simp_all

lemma collect_chain_break:
  "collect_chain cs = Inr (chain, Some c, rest) \<Longrightarrow>
     \<exists>l i a. c = AstCommand l i a \<and> i \<notin> set branch_identifiers"
proof (induction cs arbitrary: chain rule: collect_chain.induct)
  case (2 l ident args commands)
  then show ?case by (auto split: if_splits sum.splits prod.splits)
qed simp_all

lemma last_identifier_snoc [simp]: "last_identifier q (xs @ [AstCommand l i a]) = i"
  by (simp add: last_identifier_def)

lemma lower_commands_lowered:
  "lower_commands p cs res ch = Inr (res', ch') \<Longrightarrow> lowered q res \<Longrightarrow> last_identifier q res = p \<Longrightarrow>
     lowered q res'"
proof (induction p cs res ch arbitrary: res' ch' rule: lower_commands.induct)
  case (1 previous result changed)
  then show ?case by simp
next
  case (2 previous l ident args commands result changed)
  show ?case
  proof (cases "ident \<in> set branch_identifiers \<and>
         previous \<notin> set [''if:condition:body'', ''elif:condition:body'']")
    case True
    with 2(3) show ?thesis by (auto split: if_splits)
  next
    case nb: False
    show ?thesis
    proof (cases "ident = ''elif:condition:body''")
      case False
      have st: "lowered q (result @ [AstCommand l ident args])"
        using nb False 2(4,5) by (auto simp: lowered_snoc branch_identifiers_def)
      have "lower_commands ident commands (result @ [AstCommand l ident args]) changed = Inr (res', ch')"
        using nb False 2(3) by (auto split: if_splits)
      from 2(2)[OF nb False this st] show ?thesis by simp
    next
      case el: True
      then have prev: "previous \<in> set [''if:condition:body'', ''elif:condition:body'']"
        using nb by (auto simp: branch_identifiers_def)
      obtain chain command rest where cc: "collect_chain commands = Inr (chain, command, rest)"
        using nb el 2(3) by (auto split: sum.splits if_splits)
      define elif_chain where "elif_chain = AstCommand l ident args # chain"
      define popped where "popped = (case last elif_chain of AstCommand _ i _ \<Rightarrow> i = ''else:body'' | _ \<Rightarrow> False)"
      define lst where "lst = (if popped then [last elif_chain] else [])"
      define ec where "ec = (if popped then butlast elif_chain else elif_chain)"
      have ne: "rev ec \<noteq> []"
        unfolding ec_def popped_def elif_chain_def using el by (cases chain) auto
      have step: "(case nest_chain (rev ec) lst of
                   Inl e \<Rightarrow> Inl e
                 | Inr [] \<Rightarrow> Inl IndexError
                 | Inr (first # _) \<Rightarrow>
                     (case command of
                        None \<Rightarrow> Inr (result @ [first], True)
                      | Some (AstCommand l' ident' args') \<Rightarrow>
                          lower_commands ident' rest
                            (result @ [first, AstCommand l' ident' args']) True
                      | Some other \<Rightarrow> Inl AttributeError)) = Inr (res', ch')"
        using nb el cc 2(3)
        by (auto simp: Let_def elif_chain_def popped_def lst_def ec_def split: if_splits)
      then obtain r where nc: "nest_chain (rev ec) lst = Inr r"
        by (auto split: sum.splits)
      from nest_chain_else[OF nc ne] obtain l0 root where r: "r = [AstCommand l0 ''else:body'' [root]]"
        by blast
      have st1: "lowered q (result @ [AstCommand l0 ''else:body'' [root]])"
        using 2(4,5) prev by (auto simp: lowered_snoc)
      show ?thesis
      proof (cases command)
        case None
        with step nc r st1 show ?thesis by auto
      next
        case (Some c)
        from collect_chain_break[OF cc[unfolded Some]] obtain l' i' a' where
          c: "c = AstCommand l' i' a'" and ni: "i' \<notin> set branch_identifiers" by blast
        have st2: "lowered q ((result @ [AstCommand l0 ''else:body'' [root]]) @ [AstCommand l' i' a'])"
          using st1 ni by (simp only: lowered_snoc) (auto simp: branch_identifiers_def)
        have rec: "lower_commands i' rest (result @ [AstCommand l0 ''else:body'' [root], AstCommand l' i' a']) True = Inr (res', ch')"
          using step nc r Some c by simp
        have st2': "lowered q (result @ [AstCommand l0 ''else:body'' [root], AstCommand l' i' a'])"
          using st2 by simp
        have li: "last_identifier q (result @ [AstCommand l0 ''else:body'' [root], AstCommand l' i' a']) = i'"
          by (simp add: last_identifier_def)
        show ?thesis
          by (rule 2(1)[OF nb el cc refl refl refl refl refl refl
                nc[unfolded ec_def lst_def popped_def elif_chain_def] r Some c rec st2' li])
      qed
    qed
  qed
qed auto


text \<open>
  C6. The lowering is idempotent: when the rewrite of a root returns a tree, the rewrite
  of that tree returns the same tree, source ranges included.
\<close>

theorem lowering_idempotent:
  "lower_if_else root = Inr root' \<longrightarrow> lower_if_else root' = Inr root'"
proof
  assume a: "lower_if_else root = Inr root'"
  then obtain l commands where root: "root = AstRoot l commands"
    by (cases root) (auto simp: lower_if_else_def)
  from a root obtain result changed where
    lc: "lower_commands [] commands [] False = Inr (result, changed)"
    and r': "root' = (if changed then AstRoot l result else root)"
    by (auto simp: lower_if_else_def split: sum.splits)
  have "lowered [] result"
    using lower_commands_lowered[OF lc, of "[]"] by (simp add: last_identifier_def)
  then have fx: "lower_commands [] result [] False = Inr (result, False)"
    using lowered_fixed[of "[]" result "[]" False] by simp
  show "lower_if_else root' = Inr root'"
  proof (cases changed)
    case True
    with r' fx show ?thesis by (simp add: lower_if_else_def)
  next
    case False
    with r' a show ?thesis by simp
  qed
qed

theorem lowering_idempotent_witness:
  "lower_if_else (AstRoot (0, 30)
     [AstCommand (0, 10) ''if:condition:body'' [AstIdentifier (3, 4) ''a'', AstRoot (6, 10) []],
      AstCommand (10, 20) ''elif:condition:body'' [AstIdentifier (15, 16) ''b'', AstRoot (18, 20) []],
      AstCommand (20, 30) ''else:body'' [AstRoot (26, 30) []]]) =
   Inr (AstRoot (0, 30)
       [AstCommand (0, 10) ''if:condition:body'' [AstIdentifier (3, 4) ''a'', AstRoot (6, 10) []],
        AstCommand (10, 30) ''else:body''
         [AstRoot (10, 30)
           [AstCommand (10, 20) ''if:condition:body'' [AstIdentifier (15, 16) ''b'', AstRoot (18, 20) []],
            AstCommand (20, 30) ''else:body'' [AstRoot (26, 30) []]]]]) \<and>
   lower_if_else (AstRoot (0, 30)
       [AstCommand (0, 10) ''if:condition:body'' [AstIdentifier (3, 4) ''a'', AstRoot (6, 10) []],
        AstCommand (10, 30) ''else:body''
         [AstRoot (10, 30)
           [AstCommand (10, 20) ''if:condition:body'' [AstIdentifier (15, 16) ''b'', AstRoot (18, 20) []],
            AstCommand (20, 30) ''else:body'' [AstRoot (26, 30) []]]]]) =
   Inr (AstRoot (0, 30)
       [AstCommand (0, 10) ''if:condition:body'' [AstIdentifier (3, 4) ''a'', AstRoot (6, 10) []],
        AstCommand (10, 30) ''else:body''
         [AstRoot (10, 30)
           [AstCommand (10, 20) ''if:condition:body'' [AstIdentifier (15, 16) ''b'', AstRoot (18, 20) []],
            AstCommand (20, 30) ''else:body'' [AstRoot (26, 30) []]]]])"
proof -
  have first: "lower_if_else (AstRoot (0, 30)
     [AstCommand (0, 10) ''if:condition:body'' [AstIdentifier (3, 4) ''a'', AstRoot (6, 10) []],
      AstCommand (10, 20) ''elif:condition:body'' [AstIdentifier (15, 16) ''b'', AstRoot (18, 20) []],
      AstCommand (20, 30) ''else:body'' [AstRoot (26, 30) []]]) =
   Inr (AstRoot (0, 30)
       [AstCommand (0, 10) ''if:condition:body'' [AstIdentifier (3, 4) ''a'', AstRoot (6, 10) []],
        AstCommand (10, 30) ''else:body''
         [AstRoot (10, 30)
           [AstCommand (10, 20) ''if:condition:body'' [AstIdentifier (15, 16) ''b'', AstRoot (18, 20) []],
            AstCommand (20, 30) ''else:body'' [AstRoot (26, 30) []]]]])"
    by (simp add: lower_if_else_def branch_identifiers_def Let_def node_location_def
        node_end_location_def)
  from first lowering_idempotent show ?thesis by blast
qed

subsection \<open>Consuming tokens\<close>

lemma drop_dropWhile_suffix:
  "drop (length xs - length (dropWhile P (drop i xs))) xs = dropWhile P (drop i xs)"
proof (cases "i \<le> length xs")
  case True
  have "dropWhile P (drop i xs) = drop (length (takeWhile P (drop i xs))) (drop i xs)"
    by (simp add: dropWhile_eq_drop)
  also have "\<dots> = drop (length (takeWhile P (drop i xs)) + i) xs" by simp
  finally have e: "dropWhile P (drop i xs) = drop (length (takeWhile P (drop i xs)) + i) xs" .
  have "length (takeWhile P (drop i xs)) + length (dropWhile P (drop i xs)) = length xs - i"
    by (metis length_append length_drop takeWhile_dropWhile_id)
  then have "length xs - length (dropWhile P (drop i xs)) = length (takeWhile P (drop i xs)) + i"
    using True by arith
  with e show ?thesis by simp
next
  case False
  then show ?thesis by simp
qed

lemma upcoming_advance:
  "upcoming s = t # r \<Longrightarrow>
     upcoming (advance s) = dropWhile (\<lambda>t. ignore_newline s \<and> kind t = Newline) r"
proof -
  assume a: "upcoming s = t # r"
  have "drop (length (tokens s) - length (upcoming s)) (tokens s) = upcoming s"
    unfolding upcoming_def by (rule drop_dropWhile_suffix)
  then have "drop (Suc (length (tokens s) - length (upcoming s))) (tokens s) = r"
    using a by (metis drop_Suc list.sel(3) tl_drop)
  then show ?thesis
    by (simp add: upcoming_def advance_def)
qed

lemma peek_upcoming: "peek s = (case upcoming s of [] \<Rightarrow> None | t # _ \<Rightarrow> Some t)"
  by (simp add: peek_def)

lemma advance_fields [simp]:
  "tokens (advance s) = tokens s" "ignore_newline (advance s) = ignore_newline s"
  "identifiers (advance s) = identifiers s" "pending_identifiers (advance s) = pending_identifiers s"
  "identifiers_storage (advance s) = identifiers_storage s"
  "pending_identifiers_storage (advance s) = pending_identifiers_storage s"
  "branch_scope (advance s) = branch_scope s" "bolt_lookup (advance s) = bolt_lookup s"
  "bolt_format_string (advance s) = bolt_format_string s"
  by (simp_all add: advance_def)

subsection \<open>parse_function_signature\<close>

lemma signature_arguments_refines:
  "signature_arguments n E scoped args s =
   spec_signature_arguments n E (scoped \<union> set (map argument_name args)) args s"
proof (induction n arbitrary: args s)
  case 0
  then show ?case by simp
next
  case (Suc n)
  show ?case
    by (simp add: Suc.IH Let_def cong: option.case_cong prod.case_cong if_cong)
qed

lemma current_end_advance: "upcoming s = t # r \<Longrightarrow> current_end (advance s) = end_location t"
proof -
  assume a: "upcoming s = t # r"
  have "drop (length (tokens s) - length (upcoming s)) (tokens s) = upcoming s"
    unfolding upcoming_def by (rule drop_dropWhile_suffix)
  then have "tokens s ! (length (tokens s) - length (upcoming s)) = t"
    using a by (metis nth_via_drop)
  then show ?thesis by (simp add: current_end_def advance_def)
qed

text \<open>
  The tokens of earlier arguments written without default, each name with its comma, and
  the nodes the loop builds for them.
\<close>

lemma upcoming_ignore_newline:
  "upcoming s = t # r \<Longrightarrow> kind t \<noteq> Newline \<Longrightarrow> upcoming (s\<lparr>ignore_newline := True\<rparr>) = t # r"
proof -
  assume a: "upcoming s = t # r" and k: "kind t \<noteq> Newline"
  show ?thesis
  proof (cases "ignore_newline s")
    case True
    with a show ?thesis by (simp add: upcoming_def)
  next
    case False
    with a have "drop (index s) (tokens s) = t # r" by (simp add: upcoming_def)
    with k show ?thesis by (simp add: upcoming_def)
  qed
qed

lemma upcoming_advance_head:
  "upcoming s = t # u # r \<Longrightarrow> kind u \<noteq> Newline \<Longrightarrow> upcoming (advance s) = u # r"
  using upcoming_advance[of s t "u # r"] by simp

definition argument_tokens :: "(token \<times> token) list \<Rightarrow> token list" where
  "argument_tokens earlier = concat (map (\<lambda>(a, c). [a, c]) earlier)"

definition plain_arguments :: "(token \<times> token) list \<Rightarrow> node list" where
  "plain_arguments earlier =
     map (\<lambda>(a, c). AstFunctionSignatureArgument (location a, end_location a) (val a) None) earlier"

lemma signature_probe_step:
  assumes up: "upcoming s = name # equal # x # close # rest"
    and toks: "is_identifier name" "symbol ''='' equal" "is_identifier x" "symbol '')'' close"
  shows "signature_arguments (Suc n) parse_identifier scoped arguments s =
        (if val x \<in> scoped \<union> set (map argument_name arguments)
         then (Inr (arguments @
                 [AstFunctionSignatureArgument (location name, end_location x) (val name)
                    (Some (AstIdentifier (location x, end_location x) (val x)))]),
               (advance ^^ 4) s)
         else (Inl (UndefinedIdentifier x (scoped \<union> set (map argument_name arguments)) []
                     (location x) (end_location x)),
               (advance ^^ 3) s))"
    and "current_end ((advance ^^ 4) s) = end_location close"
proof -
  let ?scope = "scoped \<union> set (map argument_name arguments)"
  have u1: "upcoming (advance s) = equal # x # close # rest"
    using upcoming_advance_head[OF up] toks by (auto simp: symbol_def)
  have u2: "upcoming (advance (advance s)) = x # close # rest"
    using upcoming_advance_head[OF u1] toks by (auto simp: is_identifier_def)
  have u3: "upcoming (advance (advance (advance s))) = close # rest"
    using upcoming_advance_head[OF u2] toks by (auto simp: symbol_def)
  have u2': "upcoming (advance (advance s)\<lparr>identifiers := ?scope\<rparr>) = x # close # rest"
    using u2 by (simp add: upcoming_def)
  have adv: "advance (advance (advance s)\<lparr>identifiers := ?scope\<rparr>)
         \<lparr>identifiers := identifiers s\<rparr> = advance (advance (advance s))"
    using u2 u2' by (simp add: advance_def)
  have ce: "current_end (advance (advance (advance s))) = end_location x"
    using current_end_advance[OF u2] .
  have nc: "\<not> symbol '','' close" "\<not> symbol '')'' name"
    using toks by (auto simp: symbol_def is_identifier_def)
  have e3: "(advance ^^ 3) s = advance (advance (advance s))"
    and e4: "(advance ^^ 4) s = advance (advance (advance (advance s)))"
    by (simp_all add: numeral_3_eq_3 numeral_Bit0 funpow_swap1)
  show "signature_arguments (Suc n) parse_identifier scoped arguments s =
        (if val x \<in> ?scope
         then (Inr (arguments @
                 [AstFunctionSignatureArgument (location name, end_location x) (val name)
                    (Some (AstIdentifier (location x, end_location x) (val x)))]),
               (advance ^^ 4) s)
         else (Inl (UndefinedIdentifier x ?scope [] (location x) (end_location x)),
               (advance ^^ 3) s))"
    unfolding e3 e4
    using up toks u1 u2' u3 adv ce nc
    by (simp add: peek_def expect_def get_def andthen_def provide_identifiers_def
        parse_identifier_def Let_def)
  show "current_end ((advance ^^ 4) s) = end_location close"
    unfolding e4 using current_end_advance[OF u3] .
qed


lemma signature_plain_step:
  assumes up: "upcoming s = a # c # u # r"
    and toks: "is_identifier a" "symbol '','' c" "kind u \<noteq> Newline"
  shows "signature_arguments (Suc n) E scoped arguments s =
         signature_arguments n E scoped
           (arguments @ [AstFunctionSignatureArgument (location a, end_location a) (val a) None])
           (advance (advance s))"
proof -
  have u1: "upcoming (advance s) = c # u # r"
    using upcoming_advance_head[OF up] toks by (auto simp: symbol_def)
  have ce: "current_end (advance s) = end_location a"
    using current_end_advance[OF up] .
  have nc: "\<not> symbol '')'' a" "\<not> symbol ''='' c"
    using toks by (auto simp: symbol_def is_identifier_def)
  show ?thesis
    using up toks u1 ce nc
    by (simp add: peek_def expect_def get_def andthen_def Let_def)
qed

lemma funpow_advance_two: "(advance ^^ (2 * Suc k + m)) s = (advance ^^ (2 * k + m)) (advance (advance s))"
proof -
  have "2 * Suc k + m = (2 * k + m) + 2" by simp
  then have "(advance ^^ (2 * Suc k + m)) s = ((advance ^^ (2 * k + m)) \<circ> (advance ^^ 2)) s"
    by (simp only: funpow_add)
  then show ?thesis by (simp add: numeral_2_eq_2 funpow_swap1)
qed

lemma signature_probe_loop:
  assumes ids: "\<forall>(a, c) \<in> set earlier. is_identifier a \<and> symbol '','' c"
    and toks: "is_identifier name" "symbol ''='' equal" "is_identifier x" "symbol '')'' close"
    and up: "upcoming s = argument_tokens earlier @ name # equal # x # close # rest"
    and fuel: "length earlier < n"
  shows "signature_arguments n parse_identifier scoped arguments s =
        (if val x \<in> scoped \<union> set (map argument_name arguments) \<union> set (map (val \<circ> fst) earlier)
         then (Inr (arguments @ plain_arguments earlier @
                 [AstFunctionSignatureArgument (location name, end_location x) (val name)
                    (Some (AstIdentifier (location x, end_location x) (val x)))]),
               (advance ^^ (2 * length earlier + 4)) s)
         else (Inl (UndefinedIdentifier x
                     (scoped \<union> set (map argument_name arguments) \<union> set (map (val \<circ> fst) earlier))
                     [] (location x) (end_location x)),
               (advance ^^ (2 * length earlier + 3)) s)) \<and>
     current_end ((advance ^^ (2 * length earlier + 4)) s) = end_location close"
  using ids up fuel
proof (induction earlier arbitrary: n arguments s)
  case Nil
  then obtain m where n: "n = Suc m" by (cases n) auto
  from Nil have up0: "upcoming s = name # equal # x # close # rest"
    by (simp add: argument_tokens_def)
  show ?case
    using signature_probe_step(1)[OF up0 toks, of m scoped arguments]
      signature_probe_step(2)[OF up0 toks]
    by (simp add: n plain_arguments_def)
next
  case (Cons p earlier)
  obtain a c where p: "p = (a, c)" by (cases p)
  from Cons.prems obtain m where n: "n = Suc m" and m: "length earlier < m" by (cases n) auto
  have ac: "is_identifier a" "symbol '','' c"
    and ids': "\<forall>(a, c) \<in> set earlier. is_identifier a \<and> symbol '','' c"
    using Cons.prems(1) p by auto
  obtain u r where ur: "argument_tokens earlier @ name # equal # x # close # rest = u # r"
    and ku: "kind u \<noteq> Newline"
  proof (cases earlier)
    case Nil
    then show ?thesis using that toks by (auto simp: argument_tokens_def is_identifier_def)
  next
    case (Cons q qs)
    then show ?thesis using that ids' by (cases q) (auto simp: argument_tokens_def is_identifier_def)
  qed
  have up1: "upcoming s = a # c # u # r"
    using Cons.prems(2) p ur by (simp add: argument_tokens_def)
  have u1: "upcoming (advance s) = c # u # r"
    using upcoming_advance_head[OF up1] ac by (auto simp: symbol_def)
  have u2: "upcoming (advance (advance s)) = argument_tokens earlier @ name # equal # x # close # rest"
    using upcoming_advance_head[OF u1 ku] ur by simp
  note ih = Cons.IH[OF ids' u2 m,
      of "arguments @ [AstFunctionSignatureArgument (location a, end_location a) (val a) None]"]
  have e: "signature_arguments n parse_identifier scoped arguments s =
      signature_arguments m parse_identifier scoped
        (arguments @ [AstFunctionSignatureArgument (location a, end_location a) (val a) None])
        (advance (advance s))"
    unfolding n by (rule signature_plain_step[OF up1 ac ku])
  have sets: "scoped \<union>
      set (map argument_name
        (arguments @ [AstFunctionSignatureArgument (location a, end_location a) (val a) None])) \<union>
      set (map (val \<circ> fst) earlier) =
      scoped \<union> set (map argument_name arguments) \<union> set (map (val \<circ> fst) (p # earlier))"
    by (auto simp: p)
  have pl: "(arguments @ [AstFunctionSignatureArgument (location a, end_location a) (val a) None]) @
      plain_arguments earlier @ tl0 = arguments @ plain_arguments (p # earlier) @ tl0" for tl0
    by (simp add: p plain_arguments_def)
  have f4: "(advance ^^ (2 * length (p # earlier) + 4)) s =
      (advance ^^ (2 * length earlier + 4)) (advance (advance s))"
    and f3: "(advance ^^ (2 * length (p # earlier) + 3)) s =
      (advance ^^ (2 * length earlier + 3)) (advance (advance s))"
    using funpow_advance_two[of "length earlier" 4 s] funpow_advance_two[of "length earlier" 3 s]
    by simp_all
  show ?case
    unfolding e f4 f3 using ih unfolding sets pl .
qed


lemma signature_probe_whole:
  assumes ids: "\<forall>(a, c) \<in> set earlier. is_identifier a \<and> symbol '','' c"
    and ftoks: "is_identifier f" "symbol ''('' lparen"
    and toks: "is_identifier name" "symbol ''='' equal" "is_identifier x" "symbol '')'' close"
    and up: "upcoming s = f # lparen # argument_tokens earlier @ name # equal # x # close # rest"
    and fuel: "length earlier < fuel"
  shows "fst (parse_function_signature fuel parse_identifier s) =
        (if val x \<in> insert (val f) (identifiers s) \<union> set (map (val \<circ> fst) earlier)
         then Inr (AstFunctionSignature (location f, end_location close) (val f)
                (plain_arguments earlier @
                 [AstFunctionSignatureArgument (location name, end_location x) (val name)
                    (Some (AstIdentifier (location x, end_location x) (val x)))]))
         else Inl (UndefinedIdentifier x
                     (insert (val f) (identifiers s) \<union> set (map (val \<circ> fst) earlier))
                     [] (location x) (end_location x)))"
proof -
  obtain u r where ur: "argument_tokens earlier @ name # equal # x # close # rest = u # r"
    and ku: "kind u \<noteq> Newline"
  proof (cases earlier)
    case Nil
    then show ?thesis using that toks by (auto simp: argument_tokens_def is_identifier_def)
  next
    case (Cons q qs)
    then show ?thesis using that ids by (cases q) (auto simp: argument_tokens_def is_identifier_def)
  qed
  have up0: "upcoming s = f # lparen # u # r" using up ur by simp
  have u1: "upcoming (advance s) = lparen # u # r"
    using upcoming_advance_head[OF up0] ftoks by (auto simp: symbol_def)
  have u2: "upcoming (advance (advance s)) = u # r"
    using upcoming_advance_head[OF u1 ku] .
  let ?t = "(advance (advance s))\<lparr>ignore_newline := True\<rparr>"
  have ut: "upcoming ?t = argument_tokens earlier @ name # equal # x # close # rest"
    using upcoming_ignore_newline[OF u2 ku] ur by simp
  note loop = signature_probe_loop[OF ids toks ut fuel, of "insert (val f) (identifiers s)" "[]"]
  have ce: "current_end (z\<lparr>ignore_newline := b\<rparr>) = current_end z" for z b
    by (simp add: current_end_def)
  show ?thesis
    using up0 u1 ftoks loop
    by (simp add: parse_function_signature_def Let_def with_ignore_newline_def andthen_def
        expect_def peek_def ce)
qed


text \<open>
  C7, as the code has it. In \<^verbatim>\<open>parse_function_signature\<close> the default of the k-th argument
  is parsed with the identifiers of the outer scope, the function name and the names of
  the arguments before it, for every expression parser: the function is the parser that
  keeps such a running scope. For a whole signature whose earlier arguments have no
  default, and at any iteration of the loop, a default that is one identifier \<open>x\<close> parses
  exactly when \<open>x\<close> is in that scope. The name of the k-th argument is not added for its
  own default: it is in scope there only when it is already an outer identifier, the
  function name or the name of an earlier argument.
\<close>

theorem signature_default_scope:
  "parse_function_signature fuel expression s = spec_parse_function_signature fuel expression s \<and>
   ((\<forall>(a, c) \<in> set earlier. is_identifier a \<and> symbol '','' c) \<and>
    is_identifier f \<and> symbol ''('' lparen \<and>
    is_identifier name \<and> symbol ''='' equal \<and> is_identifier x \<and> symbol '')'' close \<and>
    upcoming s = f # lparen # argument_tokens earlier @ name # equal # x # close # rest \<and>
    length earlier < fuel \<longrightarrow>
      fst (parse_function_signature fuel parse_identifier s) =
        (if val x \<in> insert (val f) (identifiers s) \<union> set (map (val \<circ> fst) earlier)
         then Inr (AstFunctionSignature (location f, end_location close) (val f)
                (plain_arguments earlier @
                 [AstFunctionSignatureArgument (location name, end_location x) (val name)
                    (Some (AstIdentifier (location x, end_location x) (val x)))]))
         else Inl (UndefinedIdentifier x
                     (insert (val f) (identifiers s) \<union> set (map (val \<circ> fst) earlier))
                     [] (location x) (end_location x)))) \<and>
   ((\<forall>(a, c) \<in> set earlier. is_identifier a \<and> symbol '','' c) \<and>
    is_identifier name \<and> symbol ''='' equal \<and> is_identifier x \<and> symbol '')'' close \<and>
    upcoming s = argument_tokens earlier @ name # equal # x # close # rest \<and>
    length earlier < n \<longrightarrow>
      signature_arguments n parse_identifier scoped arguments s =
        (if val x \<in> scoped \<union> set (map argument_name arguments) \<union> set (map (val \<circ> fst) earlier)
         then (Inr (arguments @ plain_arguments earlier @
                 [AstFunctionSignatureArgument (location name, end_location x) (val name)
                    (Some (AstIdentifier (location x, end_location x) (val x)))]),
               (advance ^^ (2 * length earlier + 4)) s)
         else (Inl (UndefinedIdentifier x
                     (scoped \<union> set (map argument_name arguments) \<union> set (map (val \<circ> fst) earlier))
                     [] (location x) (end_location x)),
               (advance ^^ (2 * length earlier + 3)) s)))"
proof (intro conjI impI)
  show "parse_function_signature fuel expression s = spec_parse_function_signature fuel expression s"
    by (simp add: parse_function_signature_def spec_parse_function_signature_def Let_def
        signature_arguments_refines [abs_def])
next
  assume a: "(\<forall>(a, c) \<in> set earlier. is_identifier a \<and> symbol '','' c) \<and>
    is_identifier f \<and> symbol ''('' lparen \<and>
    is_identifier name \<and> symbol ''='' equal \<and> is_identifier x \<and> symbol '')'' close \<and>
    upcoming s = f # lparen # argument_tokens earlier @ name # equal # x # close # rest \<and>
    length earlier < fuel"
  then show "fst (parse_function_signature fuel parse_identifier s) =
        (if val x \<in> insert (val f) (identifiers s) \<union> set (map (val \<circ> fst) earlier)
         then Inr (AstFunctionSignature (location f, end_location close) (val f)
                (plain_arguments earlier @
                 [AstFunctionSignatureArgument (location name, end_location x) (val name)
                    (Some (AstIdentifier (location x, end_location x) (val x)))]))
         else Inl (UndefinedIdentifier x
                     (insert (val f) (identifiers s) \<union> set (map (val \<circ> fst) earlier))
                     [] (location x) (end_location x)))"
    by (intro signature_probe_whole) blast+
next
  assume a: "(\<forall>(a, c) \<in> set earlier. is_identifier a \<and> symbol '','' c) \<and>
    is_identifier name \<and> symbol ''='' equal \<and> is_identifier x \<and> symbol '')'' close \<and>
    upcoming s = argument_tokens earlier @ name # equal # x # close # rest \<and>
    length earlier < n"
  then have "signature_arguments n parse_identifier scoped arguments s =
        (if val x \<in> scoped \<union> set (map argument_name arguments) \<union> set (map (val \<circ> fst) earlier)
         then (Inr (arguments @ plain_arguments earlier @
                 [AstFunctionSignatureArgument (location name, end_location x) (val name)
                    (Some (AstIdentifier (location x, end_location x) (val x)))]),
               (advance ^^ (2 * length earlier + 4)) s)
         else (Inl (UndefinedIdentifier x
                     (scoped \<union> set (map argument_name arguments) \<union> set (map (val \<circ> fst) earlier))
                     [] (location x) (end_location x)),
               (advance ^^ (2 * length earlier + 3)) s)) \<and>
     current_end ((advance ^^ (2 * length earlier + 4)) s) = end_location close"
    by (intro signature_probe_loop) blast+
  then show "signature_arguments n parse_identifier scoped arguments s =
        (if val x \<in> scoped \<union> set (map argument_name arguments) \<union> set (map (val \<circ> fst) earlier)
         then (Inr (arguments @ plain_arguments earlier @
                 [AstFunctionSignatureArgument (location name, end_location x) (val name)
                    (Some (AstIdentifier (location x, end_location x) (val x)))]),
               (advance ^^ (2 * length earlier + 4)) s)
         else (Inl (UndefinedIdentifier x
                     (scoped \<union> set (map argument_name arguments) \<union> set (map (val \<circ> fst) earlier))
                     [] (location x) (end_location x)),
               (advance ^^ (2 * length earlier + 3)) s))"
    by blast
qed

theorem signature_default_scope_witness:
  "fst (parse_function_signature 2 parse_identifier
     (new_stream [Token Identifier ''f'' 0 1, Token Symbol ''('' 1 2, Token Identifier ''a'' 2 3,
                  Token Symbol '','' 3 4, Token Identifier ''b'' 5 6, Token Symbol ''='' 6 7,
                  Token Identifier ''a'' 7 8, Token Symbol '')'' 8 9] {} Map.empty)) =
   Inr (AstFunctionSignature (0, 9) ''f''
         [AstFunctionSignatureArgument (2, 3) ''a'' None,
          AstFunctionSignatureArgument (5, 8) ''b'' (Some (AstIdentifier (7, 8) ''a''))]) \<and>
   fst (parse_function_signature 1 parse_identifier
     (new_stream [Token Identifier ''f'' 0 1, Token Symbol ''('' 1 2, Token Identifier ''b'' 2 3,
                  Token Symbol ''='' 3 4, Token Identifier ''b'' 4 5, Token Symbol '')'' 5 6]
        {} Map.empty)) =
   Inl (UndefinedIdentifier (Token Identifier ''b'' 4 5) {''f''} [] 4 5)"
  using signature_default_scope [where fuel = 2
      and s = "new_stream [Token Identifier ''f'' 0 1, Token Symbol ''('' 1 2, Token Identifier ''a'' 2 3,
                  Token Symbol '','' 3 4, Token Identifier ''b'' 5 6, Token Symbol ''='' 6 7,
                  Token Identifier ''a'' 7 8, Token Symbol '')'' 8 9] {} Map.empty"
      and earlier = "[(Token Identifier ''a'' 2 3, Token Symbol '','' 3 4)]"
      and f = "Token Identifier ''f'' 0 1" and lparen = "Token Symbol ''('' 1 2"
      and name = "Token Identifier ''b'' 5 6" and equal = "Token Symbol ''='' 6 7"
      and x = "Token Identifier ''a'' 7 8" and close = "Token Symbol '')'' 8 9" and rest = "[]",
      THEN conjunct2, THEN conjunct1]
    signature_default_scope [where fuel = 1
      and s = "new_stream [Token Identifier ''f'' 0 1, Token Symbol ''('' 1 2, Token Identifier ''b'' 2 3,
                  Token Symbol ''='' 3 4, Token Identifier ''b'' 4 5, Token Symbol '')'' 5 6]
                  {} Map.empty"
      and earlier = "[]"
      and f = "Token Identifier ''f'' 0 1" and lparen = "Token Symbol ''('' 1 2"
      and name = "Token Identifier ''b'' 2 3" and equal = "Token Symbol ''='' 3 4"
      and x = "Token Identifier ''b'' 4 5" and close = "Token Symbol '')'' 5 6" and rest = "[]",
      THEN conjunct2, THEN conjunct1]
  by (simp add: new_stream_def upcoming_def is_identifier_def symbol_def argument_tokens_def
      plain_arguments_def)

text \<open>
  C7, as stated, fails where the name of the argument is already an outer identifier:
  in \<^verbatim>\<open>f(b=b)\<close> with \<open>b\<close> defined outside, the default \<open>b\<close> of the argument \<open>b\<close> is in
  scope and parses.
\<close>

theorem signature_own_name_in_scope_counterexample:
  "fst (parse_function_signature 1 parse_identifier
     (new_stream [Token Identifier ''f'' 0 1, Token Symbol ''('' 1 2, Token Identifier ''b'' 2 3,
                  Token Symbol ''='' 3 4, Token Identifier ''b'' 4 5, Token Symbol '')'' 5 6]
        {''b''} Map.empty)) =
   Inr (AstFunctionSignature (0, 6) ''f''
         [AstFunctionSignatureArgument (2, 5) ''b'' (Some (AstIdentifier (4, 5) ''b''))])"
  by (simp add: parse_function_signature_def Let_def with_ignore_newline_def andthen_def
      expect_def get_def peek_def upcoming_def advance_def provide_identifiers_def
      parse_identifier_def new_stream_def is_identifier_def symbol_def current_end_def)

subsection \<open>ImportStatementHandler\<close>

lemma bind_imported_names_tables:
  "bind_imported_names sub s = (Inr u, s'') \<Longrightarrow>
     identifiers s'' = identifiers s \<union> set (imported_names sub) \<and>
     identifiers_storage s'' =
       (\<lambda>k. if k \<in> set (imported_names sub) \<and> k \<notin> dom (identifiers_storage s)
            then Some ''local'' else identifiers_storage s k) \<and>
     pending_identifiers s'' = pending_identifiers s \<and>
     pending_identifiers_storage s'' = pending_identifiers_storage s"
proof (induction sub s arbitrary: s'' rule: bind_imported_names.induct)
  case (2 l ident name s)
  then show ?case
    by (cases name) (auto simp: Let_def bind_local_def setdefault_def fun_eq_iff split: if_splits)
next
  case (3 l ident name subcommand rest s)
  show ?case
  proof (cases "ident = ''from:module:import:name:subcommand''")
    case False
    with 3(2) show ?thesis
      by (cases name) (auto simp: Let_def bind_local_def setdefault_def fun_eq_iff split: if_splits)
  next
    case True
    define s1 where "s1 = (case name of AstImportedIdentifier _ v \<Rightarrow> bind_local v s | _ \<Rightarrow> s)"
    have rec: "bind_imported_names subcommand s1 = (Inr u, s'')"
      using 3(2) True by (simp add: Let_def s1_def)
    note ih = 3(1)[OF s1_def True rec]
    show ?thesis
    proof (cases name)
      case (AstImportedIdentifier x1 v)
      then have s1: "s1 = bind_local v s" by (simp add: s1_def)
      show ?thesis using ih True AstImportedIdentifier
        by (auto simp: s1 bind_local_def setdefault_def fun_eq_iff)
    qed (use ih True in \<open>auto simp: s1_def\<close>)
  qed
qed simp_all

text \<open>
  C9, as the code has it. A plain \<^verbatim>\<open>import:module\<close> of an unnamespaced location adds the
  first dotted segment to \<^verbatim>\<open>identifiers\<close> and leaves \<^verbatim>\<open>identifiers_storage\<close> as it is;
  \<^verbatim>\<open>import:module:as:alias\<close> and \<^verbatim>\<open>from:module:import:...\<close> add each name to
  \<^verbatim>\<open>identifiers\<close> and, only when the name has no storage entry yet, enter it as
  \<^verbatim>\<open>"local"\<close>: an entry already there stays. A plainly imported module name that had no
  storage entry is defined and without storage, and an augmented-assignment target of
  that name raises \<^verbatim>\<open>UndefinedIdentifier\<close> with the global/nonlocal note.
\<close>

theorem import_bindings:
  "parser s = (Inr node, s') \<longrightarrow>
   (node = AstCommand l ''import:module'' (AstResourceLocation ml is_tag namespace path # rest) \<and>
    (namespace = None \<or> namespace = Some []) \<longrightarrow>
      ImportStatementHandler parser s =
        (Inr node, s'\<lparr>identifiers := insert (first_segment path) (identifiers s')\<rparr>) \<and>
      (\<forall>t tok. identifiers t = insert (first_segment path) (identifiers s') \<and>
         identifiers_storage t = identifiers_storage s' \<and>
         first_segment path \<notin> dom (identifiers_storage s') \<and>
         peek t = Some tok \<and> is_identifier tok \<and> val tok = first_segment path \<longrightarrow>
           AssignmentTargetParser False allow_multiple t =
             (Inl (UndefinedIdentifier tok (dom (identifiers_storage s'))
                    [undefined_note (first_segment path)] (location tok) (end_location tok)),
              advance t))) \<and>
   (node = AstCommand l ''import:module:as:alias'' (module # AstImportedIdentifier al alias_name # rest) \<longrightarrow>
      ImportStatementHandler parser s =
        (Inr node,
         s'\<lparr>identifiers := insert alias_name (identifiers s'),
            identifiers_storage :=
              (if alias_name \<in> dom (identifiers_storage s') then identifiers_storage s'
               else (identifiers_storage s')(alias_name \<mapsto> ''local''))\<rparr>)) \<and>
   (node = AstCommand l ''from:module:import:subcommand'' (module # subcommand # rest) \<longrightarrow>
      (\<forall>s''. bind_imported_names subcommand s' = (Inr (), s'') \<longrightarrow>
         ImportStatementHandler parser s = (Inr node, s'') \<and>
         identifiers s'' = identifiers s' \<union> set (imported_names subcommand) \<and>
         identifiers_storage s'' =
           (\<lambda>k. if k \<in> set (imported_names subcommand) \<and> k \<notin> dom (identifiers_storage s')
                then Some ''local'' else identifiers_storage s' k)))"
proof (intro impI conjI allI)
  assume p: "parser s = (Inr node, s')"
  {
    assume n: "node = AstCommand l ''import:module'' (AstResourceLocation ml is_tag namespace path # rest) \<and>
      (namespace = None \<or> namespace = Some [])"
    show "ImportStatementHandler parser s =
        (Inr node, s'\<lparr>identifiers := insert (first_segment path) (identifiers s')\<rparr>)"
      using p n by (auto simp: ImportStatementHandler_def andthen_def)
  }
  {
    fix t tok
    assume t: "identifiers t = insert (first_segment path) (identifiers s') \<and>
         identifiers_storage t = identifiers_storage s' \<and>
         first_segment path \<notin> dom (identifiers_storage s') \<and>
         peek t = Some tok \<and> is_identifier tok \<and> val tok = first_segment path"
    show "AssignmentTargetParser False allow_multiple t =
             (Inl (UndefinedIdentifier tok (dom (identifiers_storage s'))
                    [undefined_note (first_segment path)] (location tok) (end_location tok)),
              advance t)"
      using t
      by (auto simp: AssignmentTargetParser_def andthen_def expect_def target_identifier_def
          advance_def Let_def)
  }
  {
    assume n: "node = AstCommand l ''import:module:as:alias'' (module # AstImportedIdentifier al alias_name # rest)"
    show "ImportStatementHandler parser s =
        (Inr node,
         s'\<lparr>identifiers := insert alias_name (identifiers s'),
            identifiers_storage :=
              (if alias_name \<in> dom (identifiers_storage s') then identifiers_storage s'
               else (identifiers_storage s')(alias_name \<mapsto> ''local''))\<rparr>)"
      using p n by (simp add: ImportStatementHandler_def andthen_def bind_local_def setdefault_def)
  }
  {
    fix s''
    assume n: "node = AstCommand l ''from:module:import:subcommand'' (module # subcommand # rest)"
      and b: "bind_imported_names subcommand s' = (Inr (), s'')"
    show "ImportStatementHandler parser s = (Inr node, s'')"
      using p n b by (simp add: ImportStatementHandler_def andthen_def)
    show "identifiers s'' = identifiers s' \<union> set (imported_names subcommand)"
      using bind_imported_names_tables[OF b] by simp
    show "identifiers_storage s'' =
           (\<lambda>k. if k \<in> set (imported_names subcommand) \<and> k \<notin> dom (identifiers_storage s')
                then Some ''local'' else identifiers_storage s' k)"
      using bind_imported_names_tables[OF b] by simp
  }
qed

theorem import_bindings_witness:
  "ImportStatementHandler
     (\<lambda>s. (Inr (AstCommand (0, 14) ''import:module''
                 [AstResourceLocation (7, 14) False None ''foo.bar'']), s))
     (new_stream [Token Identifier ''foo'' 15 18, Token Symbol ''+='' 19 21, Token Number ''1'' 22 23]
        {} Map.empty) =
     (Inr (AstCommand (0, 14) ''import:module'' [AstResourceLocation (7, 14) False None ''foo.bar'']),
      new_stream [Token Identifier ''foo'' 15 18, Token Symbol ''+='' 19 21, Token Number ''1'' 22 23]
        {''foo''} Map.empty) \<and>
   AssignmentTargetParser False False
     (new_stream [Token Identifier ''foo'' 15 18, Token Symbol ''+='' 19 21, Token Number ''1'' 22 23]
        {''foo''} Map.empty) =
     (Inl (UndefinedIdentifier (Token Identifier ''foo'' 15 18) {}
            [''Use 'global foo' or 'nonlocal foo' to mutate the variable defined in outer scope.'']
            15 18),
      (new_stream [Token Identifier ''foo'' 15 18, Token Symbol ''+='' 19 21, Token Number ''1'' 22 23]
        {''foo''} Map.empty)\<lparr>index := 1\<rparr>) \<and>
   ImportStatementHandler
     (\<lambda>s. (Inr (AstCommand (0, 15) ''import:module:as:alias''
                 [AstResourceLocation (7, 10) False None ''foo'',
                  AstImportedIdentifier (14, 15) ''x'']), s))
     (new_stream [] {} Map.empty) =
     (Inr (AstCommand (0, 15) ''import:module:as:alias''
                 [AstResourceLocation (7, 10) False None ''foo'',
                  AstImportedIdentifier (14, 15) ''x'']),
      new_stream [] {''x''} [''x'' \<mapsto> ''local'']) \<and>
   ImportStatementHandler
     (\<lambda>s. (Inr (AstCommand (0, 28) ''from:module:import:subcommand''
        [AstResourceLocation (5, 12) False None ''foo.bar'',
         AstCommand (20, 28) ''from:module:import:name:subcommand''
           [AstImportedIdentifier (20, 23) ''baz'',
            AstCommand (25, 28) ''from:module:import:name''
              [AstImportedIdentifier (25, 28) ''qux'']]]), s))
     (new_stream [] {} Map.empty) =
     (Inr (AstCommand (0, 28) ''from:module:import:subcommand''
        [AstResourceLocation (5, 12) False None ''foo.bar'',
         AstCommand (20, 28) ''from:module:import:name:subcommand''
           [AstImportedIdentifier (20, 23) ''baz'',
            AstCommand (25, 28) ''from:module:import:name''
              [AstImportedIdentifier (25, 28) ''qux'']]]),
      new_stream [] {''baz'', ''qux''} [''baz'' \<mapsto> ''local'', ''qux'' \<mapsto> ''local''])"
proof -
  let ?toks = "[Token Identifier ''foo'' 15 18, Token Symbol ''+='' 19 21, Token Number ''1'' 22 23]"
  let ?node = "AstCommand (0, 14) ''import:module'' [AstResourceLocation (7, 14) False None ''foo.bar'']"
  let ?renamed = "AstCommand (0, 15) ''import:module:as:alias''
                 [AstResourceLocation (7, 10) False None ''foo'', AstImportedIdentifier (14, 15) ''x'']"
  let ?from = "AstCommand (0, 28) ''from:module:import:subcommand''
        [AstResourceLocation (5, 12) False None ''foo.bar'',
         AstCommand (20, 28) ''from:module:import:name:subcommand''
           [AstImportedIdentifier (20, 23) ''baz'',
            AstCommand (25, 28) ''from:module:import:name''
              [AstImportedIdentifier (25, 28) ''qux'']]]"
  have fs: "first_segment ''foo.bar'' = ''foo''" by (simp add: first_segment_def)
  note plain = import_bindings [where parser = "\<lambda>s. (Inr ?node, s)"
        and s = "new_stream ?toks {} Map.empty" and s' = "new_stream ?toks {} Map.empty"
        and node = ?node and l = "(0, 14)" and ml = "(7, 14)" and is_tag = False
        and namespace = None and path = "''foo.bar''" and rest = "[]" and allow_multiple = False]
  have 1: "ImportStatementHandler (\<lambda>s. (Inr ?node, s)) (new_stream ?toks {} Map.empty) =
      (Inr ?node, new_stream ?toks {''foo''} Map.empty)"
    using plain by (simp add: fs new_stream_def)
  have all: "\<forall>t tok. identifiers t = insert ''foo'' (identifiers (new_stream ?toks {} Map.empty)) \<and>
         identifiers_storage t = identifiers_storage (new_stream ?toks {} Map.empty) \<and>
         ''foo'' \<notin> dom (identifiers_storage (new_stream ?toks {} Map.empty)) \<and>
         peek t = Some tok \<and> is_identifier tok \<and> val tok = ''foo'' \<longrightarrow>
           AssignmentTargetParser False False t =
             (Inl (UndefinedIdentifier tok (dom (identifiers_storage (new_stream ?toks {} Map.empty)))
                    [undefined_note ''foo''] (location tok) (end_location tok)),
              advance t)"
    using plain by (simp add: fs)
  from all [THEN spec, THEN spec, of "new_stream ?toks {''foo''} Map.empty" "Token Identifier ''foo'' 15 18"]
  have 2: "AssignmentTargetParser False False (new_stream ?toks {''foo''} Map.empty) =
     (Inl (UndefinedIdentifier (Token Identifier ''foo'' 15 18) {}
            [''Use 'global foo' or 'nonlocal foo' to mutate the variable defined in outer scope.'']
            15 18),
      (new_stream ?toks {''foo''} Map.empty)\<lparr>index := 1\<rparr>)"
    by (simp add: new_stream_def peek_def upcoming_def advance_def is_identifier_def
        undefined_note_def)
  have 3: "ImportStatementHandler (\<lambda>s. (Inr ?renamed, s)) (new_stream [] {} Map.empty) =
     (Inr ?renamed, new_stream [] {''x''} [''x'' \<mapsto> ''local''])"
    using import_bindings [where parser = "\<lambda>s. (Inr ?renamed, s)"
        and s = "new_stream [] {} Map.empty" and s' = "new_stream [] {} Map.empty"
        and node = ?renamed and l = "(0, 15)" and module = "AstResourceLocation (7, 10) False None ''foo''"
        and al = "(14, 15)" and alias_name = "''x''" and rest = "[]"]
    by (simp add: new_stream_def)
  have 4: "ImportStatementHandler (\<lambda>s. (Inr ?from, s)) (new_stream [] {} Map.empty) =
     (Inr ?from,
      new_stream [] {''baz'', ''qux''} [''baz'' \<mapsto> ''local'', ''qux'' \<mapsto> ''local''])"
    using import_bindings [where parser = "\<lambda>s. (Inr ?from, s)"
        and s = "new_stream [] {} Map.empty" and s' = "new_stream [] {} Map.empty"
        and node = ?from and l = "(0, 28)"
        and module = "AstResourceLocation (5, 12) False None ''foo.bar''"
        and subcommand = "AstCommand (20, 28) ''from:module:import:name:subcommand''
           [AstImportedIdentifier (20, 23) ''baz'',
            AstCommand (25, 28) ''from:module:import:name''
              [AstImportedIdentifier (25, 28) ''qux'']]"
        and rest = "[]"]
    by (simp add: new_stream_def bind_local_def setdefault_def Let_def insert_commute)
  from 1 2 3 4 show ?thesis by simp
qed

text \<open>
  C9, as stated, fails where the alias already has a storage class: after
  \<^verbatim>\<open>global x\<close>, the command \<^verbatim>\<open>import foo as x\<close> leaves \<open>x\<close> global.
\<close>

theorem import_alias_keeps_storage_counterexample:
  "identifiers_storage
     (snd (ImportStatementHandler
        (\<lambda>s. (Inr (AstCommand (0, 15) ''import:module:as:alias''
                    [AstResourceLocation (7, 10) False None ''foo'',
                     AstImportedIdentifier (14, 15) ''x'']), s))
        (new_stream [] {''x''} [''x'' \<mapsto> ''global'']))) ''x'' = Some ''global'' \<and>
   identifiers_storage
     (snd (ImportStatementHandler
        (\<lambda>s. (Inr (AstCommand (0, 15) ''import:module:as:alias''
                    [AstResourceLocation (7, 10) False None ''foo'',
                     AstImportedIdentifier (14, 15) ''x'']), s))
        (new_stream [] {''x''} [''x'' \<mapsto> ''global'']))) ''x'' \<noteq> Some ''local''"
  by (simp add: ImportStatementHandler_def andthen_def bind_local_def setdefault_def new_stream_def)

subsection \<open>The expression grammar\<close>

text \<open>Streams at their start, and consuming a token when newlines are not ignored.\<close>

lemma upcoming_new_stream [simp]: "upcoming (new_stream toks idents storage) = toks"
  by (simp add: upcoming_def new_stream_def)

lemma new_stream_fields [simp]:
  "ignore_newline (new_stream toks idents storage) = False"
  "identifiers (new_stream toks idents storage) = idents"
  "identifiers_storage (new_stream toks idents storage) = storage"
  "pending_identifiers (new_stream toks idents storage) = {}"
  "pending_identifiers_storage (new_stream toks idents storage) = Map.empty"
  "bolt_lookup (new_stream toks idents storage) = False"
  "bolt_format_string (new_stream toks idents storage) = False"
  "tokens (new_stream toks idents storage) = toks"
  "index (new_stream toks idents storage) = 0"
  by (simp_all add: new_stream_def)


text \<open>
  No operator of the list is next in the stream: then the loop of a \<^verbatim>\<open>BinaryParser\<close> ends
  and a \<^verbatim>\<open>UnaryParser\<close> hands over to its operand parser.
\<close>

definition quiet :: "string list \<Rightarrow> stream \<Rightarrow> bool" where
  "quiet operators s = (case peek s of None \<Rightarrow> True | Some t \<Rightarrow> \<not> is_operator operators t)"

lemma get_quiet: "quiet operators s \<Longrightarrow> get (is_operator operators) s = (None, s)"
  by (auto simp: quiet_def get_def split: option.splits)


lemma binary_no_operation:
  assumes "parser s = (Inr x, s1)" "quiet operators s1"
  shows "BinaryParser (Suc n) operators parser ra s = (Inr x, s1)"
  using assms by (simp add: BinaryParser_def andthen_def get_quiet)



lemma unary_no_operator:
  "quiet operators s \<Longrightarrow> UnaryParser (Suc n) operators parser s = parser s"
  by (simp add: get_quiet)

text \<open>
  The levels of the grammar as a list, from \<^verbatim>\<open>bolt:disjunction\<close> down to \<^verbatim>\<open>bolt:power\<close>:
  each level is a \<^verbatim>\<open>BinaryParser\<close>, with its operators and whether it is right
  associative, or a \<^verbatim>\<open>UnaryParser\<close>, and its operands are parsed by the levels after it.
  The fuel of a level is the fuel of the last one plus the number of levels after it.
  The precedence of a binary operator is the position of its level in the list.
\<close>

datatype level = Binary "string list" bool | Unary "string list"

fun run_chain :: "level list \<Rightarrow> nat \<Rightarrow> parser \<Rightarrow> parser" where
  "run_chain [] m parser = parser"
| "run_chain (Binary operators ra # rest) m parser =
     BinaryParser (m + length rest) operators (run_chain rest m parser) ra"
| "run_chain (Unary operators # rest) m parser =
     UnaryParser (m + length rest) operators (run_chain rest m parser)"

fun binary_operators :: "level list \<Rightarrow> string list" where
  "binary_operators [] = []"
| "binary_operators (Binary operators ra # rest) = operators @ binary_operators rest"
| "binary_operators (Unary operators # rest) = binary_operators rest"

fun unary_operators :: "level list \<Rightarrow> string list" where
  "unary_operators [] = []"
| "unary_operators (Binary operators ra # rest) = unary_operators rest"
| "unary_operators (Unary operators # rest) = operators @ unary_operators rest"



lemma is_operator_append:
  "is_operator (xs @ ys) t = (is_operator xs t \<or> is_operator ys t)"
  by (auto simp: is_operator_def)

lemma quiet_append: "quiet (xs @ ys) s = (quiet xs s \<and> quiet ys s)"
  by (auto simp: quiet_def is_operator_append split: option.splits)


lemma chain_no_operation:
  assumes "parser s = (Inr x, s1)" "quiet (unary_operators ls) s" "quiet (binary_operators ls) s1"
    "0 < m"
  shows "run_chain ls m parser s = (Inr x, s1)"
  using assms
proof (induction ls m parser rule: run_chain.induct)
  case (1 m parser)
  then show ?case by simp
next
  case (2 operators ra rest m parser)
  then have "run_chain rest m parser s = (Inr x, s1)" by (simp add: quiet_append)
  moreover have "quiet operators s1" using 2 by (simp add: quiet_append)
  moreover obtain n where "m + length rest = Suc n" using 2(5) by (cases m) auto
  ultimately show ?case by (simp add: binary_no_operation)
next
  case (3 operators rest m parser)
  then have "run_chain rest m parser s = (Inr x, s1)" by (simp add: quiet_append)
  moreover have "quiet operators s" using 3 by (simp add: quiet_append)
  moreover obtain n where "m + length rest = Suc n" using 3(5) by (cases m) auto
  ultimately show ?case by (simp add: unary_no_operator del: UnaryParser.simps)
qed








text \<open>
  The levels of \<^verbatim>\<open>get_bolt_parsers\<close>; \<open>expression_chain\<close> shows that \<^verbatim>\<open>bolt:expression\<close> is
  this list of levels over \<^verbatim>\<open>bolt:primary\<close>.
\<close>

definition chain :: "level list" where
  "chain =
     [Binary [''or''] False,
      Binary [''and''] False,
      Unary [''not''],
      Binary [''=='', ''!='', ''<='', ''<'', ''>='', ''>'', ''not in'', ''in'', ''is not'', ''is''] False,
      Binary [''|''] False,
      Binary [''^''] False,
      Binary [''&''] False,
      Binary [''<<'', ''>>''] False,
      Binary [''+'', ''-''] False,
      Binary [''*'', ''//'', ''/'', ''%''] False,
      Unary [''+'', ''-''],
      Binary [''**''] True]"

lemma expression_chain:
  "delegate lib (m + 13) ''bolt:expression'' = run_chain chain m (delegate lib m ''bolt:primary'')"
  by (simp add: chain_def get_bolt_parsers_def eval_nat_numeral)


text \<open>A primary expression does not begin with a unary operator.\<close>

lemma delegate_Suc: "delegate lib (Suc n) name = get_bolt_parsers n lib (delegate lib n) name"
  by simp

lemma delegate_fails_0: "fst (delegate lib 0 name s) = Inl OutOfFuel"
  by simp







lemma peek_index: "peek (s\<lparr>index := index s\<rparr>) = peek s"
  by simp





text \<open>Primary expressions that are a single identifier.\<close>

definition postfix_ahead :: "stream \<Rightarrow> bool" where
  "postfix_ahead s =
     (case peek s of None \<Rightarrow> False
      | Some t \<Rightarrow> symbol ''.'' t \<or> symbol ''('' t \<or> symbol ''['' t)"

lemma postfix_none:
  "\<not> postfix_ahead s \<Longrightarrow> postfix (Suc n) lib d node s = (Inr node, s)"
  by (auto simp: postfix_ahead_def get_def split: option.splits)




subsection \<open>PrimaryParser: the subscript with no argument\<close>

lemma peek_Some_upcoming: "peek s = Some t \<Longrightarrow> \<exists>r. upcoming s = t # r"
  by (simp add: peek_def split: list.splits)

lemma current_end_peek: "peek s = Some t \<Longrightarrow> current_end (advance s) = end_location t"
  using peek_Some_upcoming current_end_advance by blast

lemma current_end_ignore_newline [simp]: "current_end (s\<lparr>ignore_newline := b\<rparr>) = current_end s"
  by (simp add: current_end_def)

lemma call_arguments_close:
  "peek s = Some t \<Longrightarrow> close t \<Longrightarrow>
     call_arguments (Suc n) parser close allow_positional arguments s = (Inr arguments, advance s)"
  by simp

lemma postfix_empty_subscript:
  assumes "peek s = Some lb" "symbol ''['' lb"
    and "peek ((advance s)\<lparr>ignore_newline := True\<rparr>) = Some rb" "symbol '']'' rb"
  shows "postfix (Suc (Suc n)) lib d node s =
           postfix (Suc n) lib d
             (AstLookup (node_location node, end_location rb) node
                [AstSlice (node_end_location node, end_location rb) None None None])
             ((advance ((advance s)\<lparr>ignore_newline := True\<rparr>))\<lparr>ignore_newline := ignore_newline s\<rparr>)"
proof -
  have g: "get (\<lambda>t. symbol ''.'' t \<or> symbol ''('' t \<or> symbol ''['' t) s = (Some lb, advance s)"
    using assms(1,2) by (simp add: get_def)
  have n: "\<not> symbol ''.'' lb" "\<not> symbol ''('' lb" using assms(2) by (auto simp: symbol_def)
  have c: "call_arguments (Suc n) (d ''bolt:lookup_argument'') (symbol '']'') True []
             ((advance s)\<lparr>ignore_newline := True\<rparr>) =
           (Inr [], advance ((advance s)\<lparr>ignore_newline := True\<rparr>))"
    using assms(3,4) by (rule call_arguments_close)
  have e: "current_end (advance ((advance s)\<lparr>ignore_newline := True\<rparr>)) = end_location rb"
    using assms(3) by (rule current_end_peek)
  show ?thesis
    apply (subst postfix.simps(2))
    using g n c e
    by (simp add: with_ignore_newline_def andthen_def del: postfix.simps call_arguments.simps)
qed

lemma primary_identifier_postfix:
  assumes "peek s = Some a" "is_identifier a" "val a \<in> identifiers s"
  shows "delegate lib (Suc (Suc (Suc n))) ''bolt:primary'' s =
           postfix (Suc (Suc n)) lib (delegate lib (Suc (Suc n)))
             (AstIdentifier (location a, end_location a) (val a)) (advance s)"
proof -
  have g: "get (\<lambda>t. symbol ''('' t \<or> is_format_string t) s = (None, s)"
    using assms(1,2) by (auto simp: get_def symbol_def is_format_string_def is_identifier_def)
  have i: "parse_identifier s = (Inr (AstIdentifier (location a, end_location a) (val a)), advance s)"
    using assms(1-3) by (simp add: parse_identifier_def expect_def andthen_def)
  have a: "delegate lib (Suc (Suc n)) ''bolt:atom'' s =
             (Inr (AstIdentifier (location a, end_location a) (val a)), advance s)"
    using i by (simp add: get_bolt_parsers_def AlternativeParser_def)
  show ?thesis
    using g a
    by (simp add: get_bolt_parsers_def PrimaryParser_def andthen_def del: postfix.simps)
qed

lemma upcoming_ignore_newline_update:
  "upcoming (s\<lparr>ignore_newline := True\<rparr>) = dropWhile (\<lambda>t. kind t = Newline) (upcoming s)"
  by (cases "ignore_newline s") (simp_all add: upcoming_def)

lemma upcoming_advance_tl:
  "upcoming (advance s) = dropWhile (\<lambda>t. ignore_newline s \<and> kind t = Newline) (tl (upcoming s))"
proof (cases "upcoming s")
  case Nil
  have "upcoming (s\<lparr>index := Suc (length (tokens s))\<rparr>) = []"
    by (simp add: upcoming_def)
  then have "upcoming (advance s) = []"
    using Nil by (simp add: advance_def)
  then show ?thesis using Nil by simp
next
  case (Cons t r)
  then show ?thesis using upcoming_advance[OF Cons] by simp
qed

lemma upcoming_ignore_newline_off:
  "upcoming (s\<lparr>ignore_newline := False\<rparr>) = drop (index s) (tokens s)"
  by (simp add: upcoming_def)

lemma index_advance: "index (advance s) = Suc (length (tokens s) - length (upcoming s))"
  by (simp add: advance_def)

text \<open>
  Claim C3, corrected. When the postfix loop meets an opening bracket and the closing
  bracket is the next token, newlines ignored, it does not raise: it builds an
  \<^verbatim>\<open>AstLookup\<close> over the node parsed so far, whose only argument is an \<^verbatim>\<open>AstSlice\<close> with
  neither start, stop nor step, located from the end of that node to the end of the
  closing bracket. The loop goes on with that node when another postfix operator follows
  and returns it otherwise.
\<close>

theorem empty_subscript_lookup:
  assumes "peek s = Some lb" and "symbol ''['' lb"
    and "peek ((advance s)\<lparr>ignore_newline := True\<rparr>) = Some rb" and "symbol '']'' rb"
    and "lookup = AstLookup (node_location node, end_location rb) node
                    [AstSlice (node_end_location node, end_location rb) None None None]"
    and "s' = (advance ((advance s)\<lparr>ignore_newline := True\<rparr>))\<lparr>ignore_newline := ignore_newline s\<rparr>"
  shows "postfix (Suc (Suc n)) lib registry node s =
           (if postfix_ahead s' then postfix (Suc n) lib registry lookup s'
            else (Inr lookup, s'))"
  using postfix_empty_subscript[OF assms(1-4), of n lib registry node]
    postfix_none[of s' n lib registry lookup]
  unfolding assms(5,6) by (simp del: postfix.simps)

theorem empty_subscript_lookup_witness:
  "\<forall>lib registry n.
     fst (postfix (Suc (Suc n)) lib registry (AstIdentifier (0, 1) ''a'')
            (advance (new_stream [Token Identifier ''a'' 0 1, Token Symbol ''['' 1 2,
                                  Token Symbol '']'' 2 3] {''a''} Map.empty))) =
       Inr (AstLookup (0, 3) (AstIdentifier (0, 1) ''a'') [AstSlice (1, 3) None None None])"
proof (intro allI)
  fix lib registry n
  let ?s = "advance (new_stream [Token Identifier ''a'' 0 1, Token Symbol ''['' 1 2,
                                  Token Symbol '']'' 2 3] {''a''} Map.empty)"
  show "fst (postfix (Suc (Suc n)) lib registry (AstIdentifier (0, 1) ''a'') ?s) =
       Inr (AstLookup (0, 3) (AstIdentifier (0, 1) ''a'') [AstSlice (1, 3) None None None])"
    using empty_subscript_lookup[of ?s "Token Symbol ''['' 1 2" "Token Symbol '']'' 2 3" _
        "AstIdentifier (0, 1) ''a''" _ n lib registry, OF _ _ _ _ refl refl]
    by (simp add: peek_upcoming upcoming_advance_tl upcoming_ignore_newline_update symbol_def
        upcoming_ignore_newline_off index_advance
        postfix_ahead_def node_location_def node_end_location_def del: postfix.simps)
qed

text \<open>
  The claim as stated fails: the input \<^verbatim>\<open>a[]\<close>, with \<^verbatim>\<open>a\<close> in scope, is parsed by
  \<^verbatim>\<open>bolt:expression\<close> to a lookup node, with no error.
\<close>

theorem empty_subscript_accepted_counterexample:
  "\<forall>lib.
     fst (delegate lib 16 ''bolt:expression''
            (new_stream [Token Identifier ''a'' 0 1, Token Symbol ''['' 1 2,
                         Token Symbol '']'' 2 3] {''a''} Map.empty)) =
       Inr (AstLookup (0, 3) (AstIdentifier (0, 1) ''a'') [AstSlice (1, 3) None None None])"
proof (intro allI)
  fix lib
  let ?s = "new_stream [Token Identifier ''a'' 0 1, Token Symbol ''['' 1 2,
                         Token Symbol '']'' 2 3] {''a''} Map.empty"
  let ?s' = "(advance ((advance (advance ?s))\<lparr>ignore_newline := True\<rparr>))\<lparr>ignore_newline := False\<rparr>"
  note ev = peek_upcoming upcoming_advance_tl upcoming_ignore_newline_update symbol_def
    upcoming_ignore_newline_off index_advance postfix_ahead_def node_location_def node_end_location_def is_identifier_def quiet_def
    is_operator_def
  have "postfix (Suc (Suc 0)) lib (delegate lib (Suc (Suc 0))) (AstIdentifier (0, 1) ''a'') (advance ?s) =
          postfix (Suc 0) lib (delegate lib (Suc (Suc 0)))
            (AstLookup (0, 3) (AstIdentifier (0, 1) ''a'') [AstSlice (1, 3) None None None]) ?s'"
    using postfix_empty_subscript[of "advance ?s" "Token Symbol ''['' 1 2" "Token Symbol '']'' 2 3"
        0 lib "delegate lib (Suc (Suc 0))" "AstIdentifier (0, 1) ''a''"]
    by (simp add: ev del: postfix.simps delegate.simps)
  also have "\<dots> = (Inr (AstLookup (0, 3) (AstIdentifier (0, 1) ''a'') [AstSlice (1, 3) None None None]), ?s')"
    by (rule postfix_none) (simp add: ev)
  finally have p: "delegate lib 3 ''bolt:primary'' ?s =
      (Inr (AstLookup (0, 3) (AstIdentifier (0, 1) ''a'') [AstSlice (1, 3) None None None]), ?s')"
    using primary_identifier_postfix[of ?s "Token Identifier ''a'' 0 1" lib 0]
    by (simp add: ev eval_nat_numeral del: postfix.simps delegate.simps)
  have "run_chain chain 3 (delegate lib 3 ''bolt:primary'') ?s =
      (Inr (AstLookup (0, 3) (AstIdentifier (0, 1) ''a'') [AstSlice (1, 3) None None None]), ?s')"
    using p by (rule chain_no_operation) (simp_all add: ev)
  then show "fst (delegate lib 16 ''bolt:expression'' ?s) =
       Inr (AstLookup (0, 3) (AstIdentifier (0, 1) ''a'') [AstSlice (1, 3) None None None])"
    using expression_chain[of lib 3] by simp
qed

end
